theory Spec2Isabelle
  imports Complex_Main "HOL-Library.List_Lexorder" "HOL-Library.Product_Lexorder"
    "HOL-Library.Multiset"
begin

section \<open>Python strings\<close>

text \<open>
  A Python \<open>str\<close> is a sequence of Unicode code points.  It is modelled as a list of
  natural numbers (the code points), so that the range \<open>\u4e00-\u9fff\<close> of the
  normalising regular expression is expressible and so that the lexicographic order
  on lists is Python's order on \<open>str\<close>.  \<open>ustr\<close> converts an ASCII literal.
\<close>

type_synonym ustr = "nat list"

definition ustr :: "string \<Rightarrow> ustr" where
  "ustr s = map of_char s"

text \<open>\<open>str.isspace\<close> for one code point; the same set is what \<open>\s\<close> matches in a
  \<open>str\<close> pattern.\<close>

definition is_space :: "nat \<Rightarrow> bool" where
  "is_space c \<longleftrightarrow>
     (9 \<le> c \<and> c \<le> 13) \<or> (28 \<le> c \<and> c \<le> 32) \<or> c = 133 \<or> c = 160 \<or> c = 5760 \<or>
     (8192 \<le> c \<and> c \<le> 8202) \<or> c = 8232 \<or> c = 8233 \<or> c = 8239 \<or> c = 8287 \<or> c = 12288"

text \<open>The character class \<open>[0-9a-z\u4e00-\u9fff]\<close> of \<open>normalize_keyword\<close>.\<close>

definition kept :: "nat \<Rightarrow> bool" where
  "kept c \<longleftrightarrow> (48 \<le> c \<and> c \<le> 57) \<or> (97 \<le> c \<and> c \<le> 122) \<or> (19968 \<le> c \<and> c \<le> 40959)"

text \<open>
  \<open>str.lower\<close>.  ASCII capitals map to their small letters.  Exactly two other code
  points have a lower-case form that contains a character of the class \<open>kept\<close>:
  U+0130 (to \<open>i\<close> followed by U+0307) and U+212A, the Kelvin sign (to \<open>k\<close>).  Every
  other code point is left as it is: where Python changes it, both the code point and
  its lower-case form lie outside \<open>kept\<close> and are not white space, so the functions
  below, which only distinguish \<open>kept\<close>, white space and the rest, cannot tell the
  difference.
\<close>

definition lower_char :: "nat \<Rightarrow> ustr" where
  "lower_char c =
     (if 65 \<le> c \<and> c \<le> 90 then [c + 32]
      else if c = 304 then [105, 775]
      else if c = 8490 then [107]
      else [c])"

definition lower :: "ustr \<Rightarrow> ustr" where
  "lower s = concat (map lower_char s)"

text \<open>\<open>str.strip()\<close> without argument.\<close>

definition strip :: "ustr \<Rightarrow> ustr" where
  "strip s = rev (dropWhile is_space (rev (dropWhile is_space s)))"

text \<open>\<open>re.sub(r"[C]+", " ", s)\<close> for a character class \<open>C\<close>: every maximal run of
  characters of the class is replaced by one space.\<close>

function re_sub_runs :: "(nat \<Rightarrow> bool) \<Rightarrow> ustr \<Rightarrow> ustr" where
  "re_sub_runs p [] = []"
| "re_sub_runs p (c # cs) =
     (if p c then 32 # re_sub_runs p (dropWhile p cs) else c # re_sub_runs p cs)"
  by pat_completeness auto
termination
  by (relation "measure (\<lambda>(p, s). length s)")
     (auto simp: length_dropWhile_le le_imp_less_Suc)

text \<open>
  \<^verbatim>\<open>
  def normalize_keyword(s: str) -> str:
      s = (s or "").lower().strip()
      s = re.sub(r"[^0-9a-z\u4e00-\u9fff]+", " ", s)
      return re.sub(r"\s+", " ", s).strip()
  \<close>
\<close>

definition normalize_keyword :: "ustr \<Rightarrow> ustr" where
  "normalize_keyword s =
     (let s1 = strip (lower s);
          s2 = re_sub_runs (\<lambda>c. \<not> kept c) s1
      in strip (re_sub_runs is_space s2))"

text \<open>\<open>str.split(sep)\<close> for a one-character separator: the pieces between the
  separators, empty pieces included; the empty string gives one empty piece.\<close>

fun split_on :: "nat \<Rightarrow> ustr \<Rightarrow> ustr list" where
  "split_on sep [] = [[]]"
| "split_on sep (c # cs) =
     (if c = sep then [] # split_on sep cs
      else (c # hd (split_on sep cs)) # tl (split_on sep cs))"

text \<open>\<open>str.split()\<close> without argument: the maximal runs of characters that are not
  white space.\<close>

function split_ws :: "ustr \<Rightarrow> ustr list" where
  "split_ws s =
     (let t = dropWhile is_space s
      in if t = [] then []
         else takeWhile (\<lambda>c. \<not> is_space c) t # split_ws (dropWhile (\<lambda>c. \<not> is_space c) t))"
  by pat_completeness auto
termination
proof (relation "measure length", simp, goal_cases)
  case (1 s t)
  then obtain c cs where t: "dropWhile is_space s = c # cs"
    by (cases "dropWhile is_space s") auto
  then have "\<not> is_space c"
    using hd_dropWhile [of is_space s] by auto
  then have "length (dropWhile (\<lambda>c. \<not> is_space c) (c # cs)) \<le> length cs"
    by (simp add: length_dropWhile_le)
  moreover have "length (c # cs) \<le> length s"
    using length_dropWhile_le [of is_space s] t by simp
  ultimately show ?case using 1 t by simp
qed

text \<open>\<open>sep.join(xs)\<close> for a one-character separator.\<close>

fun join :: "nat \<Rightarrow> ustr list \<Rightarrow> ustr" where
  "join sep [] = []"
| "join sep [x] = x"
| "join sep (x # y # ys) = x @ sep # join sep (y # ys)"


declare split_ws.simps [simp del]

section \<open>Text similarity\<close>

text \<open>
  \<^verbatim>\<open>
  STOPWORDS_BASE = {"amsterdam", "hotel", "hotels", "the", "by", "hostel", "inn",
      "apartment", "apartments", "residence", "collection", "city", "center", "centre",
      "netherlands"}
  CITY_FOR_QUERY_EN = "Amsterdam"
  def _stopwords():
      sw = set(STOPWORDS_BASE)
      if CITY_FOR_QUERY_EN:
          sw.add(CITY_FOR_QUERY_EN.lower())
      return sw
  \<close>
\<close>

definition STOPWORDS_BASE :: "ustr set" where
  "STOPWORDS_BASE = set (map ustr
     [''amsterdam'', ''hotel'', ''hotels'', ''the'', ''by'', ''hostel'', ''inn'',
      ''apartment'', ''apartments'', ''residence'', ''collection'', ''city'', ''center'',
      ''centre'', ''netherlands''])"

definition CITY_FOR_QUERY_EN :: ustr where
  "CITY_FOR_QUERY_EN = ustr ''Amsterdam''"

definition stopwords :: "ustr set" where
  "stopwords =
     (if CITY_FOR_QUERY_EN \<noteq> [] then insert (lower CITY_FOR_QUERY_EN) STOPWORDS_BASE
      else STOPWORDS_BASE)"

text \<open>
  \<^verbatim>\<open>
  def token_set(s: str) -> List[str]:
      tokens = normalize_keyword(s).split()
      sw = _stopwords()
      seen, out = set(), []
      for t in tokens:
          if t in sw:
              continue
          if t not in seen:
              seen.add(t)
              out.append(t)
      return out
  \<close>
  The set \<open>seen\<close> always holds the elements of \<open>out\<close>, so the loop state is \<open>out\<close>.
\<close>

definition token_set :: "ustr \<Rightarrow> ustr list" where
  "token_set s =
     (let tokens = split_ws (normalize_keyword s);
          sw = stopwords
      in fold (\<lambda>t out. if t \<in> sw then out
                        else if t \<notin> set out then out @ [t] else out) tokens [])"

text \<open>
  \<^verbatim>\<open>
  def jaccard(a, b):
      sa, sb = set(a), set(b)
      return len(sa & sb) / len(sa | sb) if sa and sb else 0.0
  \<close>
  Python floats are modelled as real numbers: no rounding.
\<close>

definition jaccard :: "ustr list \<Rightarrow> ustr list \<Rightarrow> real" where
  "jaccard a b =
     (let sa = set a; sb = set b
      in if sa \<noteq> {} \<and> sb \<noteq> {} then real (card (sa \<inter> sb)) / real (card (sa \<union> sb)) else 0)"

text \<open>
  \<^verbatim>\<open>
  def edit_sim(a, b):
      a2 = " ".join(token_set(a))
      b2 = " ".join(token_set(b))
      return SequenceMatcher(None, a2, b2).ratio()
  \<close>
  \<open>SequenceMatcher\<close> belongs to Python's \<open>difflib\<close>, not to this program: its ratio
  is the parameter \<open>ratio\<close>.
\<close>

definition edit_sim :: "(ustr \<Rightarrow> ustr \<Rightarrow> real) \<Rightarrow> ustr \<Rightarrow> ustr \<Rightarrow> real" where
  "edit_sim ratio a b =
     (let a2 = join 32 (token_set a);
          b2 = join 32 (token_set b)
      in ratio a2 b2)"

definition JACCARD_MIN :: real where "JACCARD_MIN = 0.80"
definition EDIT_SIM_MIN :: real where "EDIT_SIM_MIN = 0.92"
definition TOP2_MARGIN_MIN :: real where "TOP2_MARGIN_MIN = 0.05"

text \<open>
  \<^verbatim>\<open>
  def _best_kw_metrics(query, kw_text):
      kws = [k for k in (kw_text or "").split(";") if k.strip()]
      if not kws:
          return 0.0, 0.0, 0.0
      best_s, best_j, best_e = 0.0, 0.0, 0.0
      q_tokens = token_set(query)
      for k in kws:
          j = jaccard(q_tokens, token_set(k))
          e = edit_sim(query, k)
          s = 0.6 * j + 0.4 * e
          if s > best_s:
              best_s, best_j, best_e = s, j, e
      return best_s, best_j, best_e
  \<close>
\<close>

definition best_kw_metrics ::
  "(ustr \<Rightarrow> ustr \<Rightarrow> real) \<Rightarrow> ustr \<Rightarrow> ustr \<Rightarrow> real \<times> real \<times> real" where
  "best_kw_metrics ratio query kw_text =
     (let kws = filter (\<lambda>k. strip k \<noteq> []) (split_on 59 kw_text)
      in if kws = [] then (0, 0, 0)
         else
           let q_tokens = token_set query
           in fold (\<lambda>k (best_s, best_j, best_e).
                      let j = jaccard q_tokens (token_set k);
                          e = edit_sim ratio query k;
                          s = 0.6 * j + 0.4 * e
                      in if s > best_s then (s, j, e) else (best_s, best_j, best_e))
                 kws (0, 0, 0))"

section \<open>Addresses\<close>

text \<open>
  \<^verbatim>\<open>
  def _clean_country_suffix(addr):
      if not addr:
          return ""
      addr = re.sub(r",?\s*(the\s+)?netherlands\s*$", "", addr, flags=re.I).strip()
      return addr.rstrip(",")
  \<close>
  \<open>ci_char p c\<close>: the pattern letter \<open>p\<close> (a small ASCII letter of the pattern) matches
  the character \<open>c\<close> under \<open>re.I\<close>; apart from the capital, only \<open>s\<close> has a further
  equivalent among the letters of the pattern, U+017F.
\<close>

definition ci_char :: "nat \<Rightarrow> nat \<Rightarrow> bool" where
  "ci_char p c \<longleftrightarrow> c = p \<or> c + 32 = p \<or> (p = 115 \<and> c = 383)"

fun ci_prefix :: "ustr \<Rightarrow> ustr \<Rightarrow> ustr option" where
  "ci_prefix [] s = Some s"
| "ci_prefix (p # ps) [] = None"
| "ci_prefix (p # ps) (c # cs) = (if ci_char p c then ci_prefix ps cs else None)"

text \<open>\<open>country_match t\<close>: the pattern matches the whole of \<open>t\<close>.  Each optional or
  starred part is taken greedily; giving back what it took never helps, because the
  next part of the pattern cannot start with what was given back.\<close>

definition country_match :: "ustr \<Rightarrow> bool" where
  "country_match t =
     (let t1 = (case t of c # cs \<Rightarrow> if c = 44 then cs else t | [] \<Rightarrow> t);
          t2 = dropWhile is_space t1;
          t3 = (case ci_prefix (ustr ''the'') t2 of
                  Some r \<Rightarrow> if r \<noteq> [] \<and> is_space (hd r) then dropWhile is_space r else t2
                | None \<Rightarrow> t2)
      in case ci_prefix (ustr ''netherlands'') t3 of
           Some r \<Rightarrow> list_all is_space r
         | None \<Rightarrow> False)"

text \<open>The substitution removes the match that starts leftmost; it reaches the end of
  the string.\<close>

fun re_sub_country :: "ustr \<Rightarrow> ustr" where
  "re_sub_country [] = []"
| "re_sub_country (c # cs) = (if country_match (c # cs) then [] else c # re_sub_country cs)"

definition rstrip_comma :: "ustr \<Rightarrow> ustr" where
  "rstrip_comma s = rev (dropWhile (\<lambda>c. c = 44) (rev s))"

definition clean_country_suffix :: "ustr \<Rightarrow> ustr" where
  "clean_country_suffix addr =
     (if addr = [] then [] else rstrip_comma (strip (re_sub_country addr)))"

text \<open>
  \<^verbatim>\<open>
  def _split_address(addr):
      addr = _clean_country_suffix(addr or "")
      if not addr:
          return "", ""
      parts = [p.strip() for p in addr.split(",") if p.strip()]
      if not parts:
          return "", ""
      street = parts[0]
      city = parts[-1].split()[-1] if parts else ""
      return street, city
  \<close>
  Every part is non-empty and stripped, so \<open>parts[-1].split()\<close> is not empty.
\<close>

definition split_address :: "ustr \<Rightarrow> ustr \<times> ustr" where
  "split_address addr0 =
     (let addr = clean_country_suffix addr0
      in if addr = [] then ([], [])
         else
           let parts = map strip (filter (\<lambda>p. strip p \<noteq> []) (split_on 44 addr))
           in if parts = [] then ([], [])
              else (hd parts, last (split_ws (last parts))))"


section \<open>The knowledge store\<close>

text \<open>
  A row of the table \<open>hotels\<close> or \<open>pickup_locations\<close>, and the dictionary
  \<open>_row_to_obj\<close> makes of it (which only renames \<open>latitude\<close>, \<open>longitude\<close> to \<open>lat\<close>,
  \<open>lng\<close>).  The columns \<open>latitude\<close> and \<open>longitude\<close> are nullable: \<open>None\<close> is SQL
  \<open>NULL\<close>.  Every reader of the text columns \<open>keywords\<close> and \<open>place_id\<close> replaces
  \<open>NULL\<close> by the empty string, so these are plain strings.  The dictionaries that
  \<open>save_or_update_db\<close> returns have no keys \<open>created_at\<close> and \<open>updated_at\<close>: there the
  two fields are \<open>None\<close>.
\<close>

record place =
  p_id :: nat
  p_name :: ustr
  p_keywords :: ustr
  p_street :: ustr
  p_city :: ustr
  p_address :: ustr
  p_lat :: "real option"
  p_lng :: "real option"
  p_place_id :: ustr
  p_created_at :: "ustr option"
  p_updated_at :: "ustr option"
  p_notes :: ustr

text \<open>A table: its rows in rowid order, and the largest rowid ever used (the
  \<open>AUTOINCREMENT\<close> counter of SQLite).\<close>

record db =
  db_rows :: "place list"
  db_seq :: nat

definition next_id :: "db \<Rightarrow> nat" where
  "next_id d = Suc (fold max (map p_id (db_rows d)) (db_seq d))"

definition empty_db :: db where
  "empty_db = \<lparr>db_rows = [], db_seq = 0\<rparr>"

text \<open>Python's \<open>x or y\<close> on an optional float and on a string: \<open>None\<close>, \<open>0.0\<close> and the
  empty string are false.\<close>

definition or_float :: "real option \<Rightarrow> real option \<Rightarrow> real option" where
  "or_float x y = (case x of Some v \<Rightarrow> if v \<noteq> 0 then Some v else y | None \<Rightarrow> y)"

definition or_str :: "ustr \<Rightarrow> ustr \<Rightarrow> ustr" where
  "or_str x y = (if x \<noteq> [] then x else y)"

text \<open>The list comprehension shared by the readers of the column \<open>keywords\<close>:
  \<^verbatim>\<open>[normalize_keyword(k) for k in (kw or "").split(";") if k.strip()]\<close>\<close>

definition kw_list :: "ustr \<Rightarrow> ustr list" where
  "kw_list kw = map normalize_keyword (filter (\<lambda>k. strip k \<noteq> []) (split_on 59 kw))"

text \<open>
  \<^verbatim>\<open>
  def _merge_keywords(old, new):
      old_list = [normalize_keyword(k) for k in (old or "").split(";") if k and k.strip()]
      new_norm = normalize_keyword(new or "")
      if new_norm and new_norm not in old_list:
          old_list.append(new_norm)
      return ";".join(sorted(set(old_list)))
  \<close>
\<close>

definition merge_keywords :: "ustr \<Rightarrow> ustr \<Rightarrow> ustr" where
  "merge_keywords old new =
     (let old_list = map normalize_keyword
                       (filter (\<lambda>k. k \<noteq> [] \<and> strip k \<noteq> []) (split_on 59 old));
          new_norm = normalize_keyword new;
          old_list' = (if new_norm \<noteq> [] \<and> new_norm \<notin> set old_list
                       then old_list @ [new_norm] else old_list)
      in join 59 (sort (remdups old_list')))"

text \<open>
  \<^verbatim>\<open>
  def _append_keyword_to_id(db_kind, rec_id, new_kw):
      cur.execute(f"SELECT keywords FROM {table} WHERE id=?", (rec_id,))
      row = cur.fetchone()
      if not row:
          return
      merged = _merge_keywords(row[0] or "", new_kw)
      if merged != (row[0] or ""):
          cur.execute(f"UPDATE {table} SET keywords=?, updated_at=? WHERE id=?",
                      (merged, _now(), rec_id))
  \<close>
  The clock reading \<open>_now()\<close> is the parameter \<open>now\<close>.
\<close>

definition append_keyword_to_id :: "ustr \<Rightarrow> db \<Rightarrow> nat \<Rightarrow> ustr \<Rightarrow> db" where
  "append_keyword_to_id now d rec_id new_kw =
     (case find (\<lambda>r. p_id r = rec_id) (db_rows d) of
        None \<Rightarrow> d
      | Some row \<Rightarrow>
          let merged = merge_keywords (p_keywords row) new_kw
          in if merged \<noteq> p_keywords row
             then d\<lparr>db_rows := map (\<lambda>r. if p_id r = rec_id
                                         then r\<lparr>p_keywords := merged, p_updated_at := Some now\<rparr>
                                         else r) (db_rows d)\<rparr>
             else d)"

text \<open>
  \<^verbatim>\<open>
  def find_in_db_exact_keywords_only(query, db_kind):
      q = normalize_keyword(query)
      rows = SELECT * FROM table
      for r in rows:
          obj = _row_to_obj(r)
          kw_list = [normalize_keyword(k)
                     for k in (obj.get("keywords") or "").split(";") if k.strip()]
          if q in kw_list:
              return obj
      return None
  \<close>
\<close>

definition find_in_db_exact_keywords_only :: "ustr \<Rightarrow> db \<Rightarrow> place option" where
  "find_in_db_exact_keywords_only query d =
     (let q = normalize_keyword query
      in find (\<lambda>obj. q \<in> set (kw_list (p_keywords obj))) (db_rows d))"

text \<open>
  \<^verbatim>\<open>
  def find_best_in_db_precise(query, db_kind):
      rows = SELECT * FROM table
      if not rows:
          return None
      scored = []
      for r in rows:
          obj = _row_to_obj(r)
          s, j, e = _best_kw_metrics(query, obj.get("keywords", "") or "")
          scored.append((s, j, e, obj))
      scored.sort(key=lambda x: x[0], reverse=True)
      top_score, top_j, top_e, top_obj = scored[0]
      second_score = scored[1][0] if len(scored) > 1 else 0.0
      margin = top_score - second_score
      if (top_j >= JACCARD_MIN) and (top_e >= EDIT_SIM_MIN) and (margin >= TOP2_MARGIN_MIN):
          return top_obj
      return None
  \<close>
  \<open>list.sort\<close> is stable, also with \<open>reverse=True\<close>: rows of equal score keep their
  order.  That is the stable sort on the negated score.
\<close>

definition find_best_in_db_precise ::
  "(ustr \<Rightarrow> ustr \<Rightarrow> real) \<Rightarrow> ustr \<Rightarrow> db \<Rightarrow> place option" where
  "find_best_in_db_precise ratio query d =
     (let rows = db_rows d
      in if rows = [] then None
         else
           let scored = sort_key (\<lambda>x. - fst x)
                          (map (\<lambda>obj. case best_kw_metrics ratio query (p_keywords obj) of
                                         (s, j, e) \<Rightarrow> (s, j, e, obj)) rows);
               (top_score, top_j, top_e, top_obj) = hd scored;
               second_score = (if length scored > 1 then fst (scored ! 1) else 0);
               margin = top_score - second_score
           in if top_j \<ge> JACCARD_MIN \<and> top_e \<ge> EDIT_SIM_MIN \<and> margin \<ge> TOP2_MARGIN_MIN
              then Some top_obj else None)"

text \<open>
  \<^verbatim>\<open>
  def save_or_update_db(db_kind, official_name, new_keyword, address, lat, lng,
                        place_id="", notes=""):
      addr = _clean_country_suffix(address or "")
      street, city = _split_address(addr)
      now = _now()
      cur.execute(f"SELECT id, keywords, address, latitude, longitude, place_id
                     FROM {table} WHERE name=?", (official_name,))
      row = cur.fetchone()
      if row:
          rec_id, old_kw, old_addr, old_lat, old_lng, old_pid = row
          merged_kw = _merge_keywords(old_kw, new_keyword)
          UPDATE table SET keywords=merged_kw, address=addr, street=street, city=city,
                 latitude=lat or old_lat, longitude=lng or old_lng,
                 place_id=place_id or (old_pid or ""), notes=notes or "", updated_at=now
           WHERE id=rec_id
          return {"id": rec_id, "name": official_name, "keywords": merged_kw,
                  "address": addr, "street": street, "city": city,
                  "lat": lat or old_lat, "lng": lng or old_lng,
                  "place_id": place_id or (old_pid or ""), "notes": notes}
      else:
          INSERT INTO table (name, keywords, street, city, address, latitude, longitude,
                             place_id, created_at, updated_at, notes)
          VALUES (official_name, normalize_keyword(new_keyword), street, city, addr,
                  lat or 0.0, lng or 0.0, place_id or "", now, now, notes or "")
          rec_id = cur.lastrowid
          return {"id": rec_id, "name": official_name,
                  "keywords": normalize_keyword(new_keyword),
                  "address": addr, "street": street, "city": city,
                  "lat": lat or 0.0, "lng": lng or 0.0,
                  "place_id": place_id or "", "notes": notes}
  \<close>
  The result is the returned dictionary and the table after the call.
\<close>

definition save_or_update_db ::
  "ustr \<Rightarrow> db \<Rightarrow> ustr \<Rightarrow> ustr \<Rightarrow> ustr \<Rightarrow> real option \<Rightarrow> real option \<Rightarrow> ustr \<Rightarrow> ustr
     \<Rightarrow> place \<times> db" where
  "save_or_update_db now d official_name new_keyword address lat lng place_id notes =
     (let addr = clean_country_suffix address;
          (street, city) = split_address addr
      in case find (\<lambda>r. p_name r = official_name) (db_rows d) of
           Some row \<Rightarrow>
             let rec_id = p_id row;
                 merged_kw = merge_keywords (p_keywords row) new_keyword;
                 upd = (\<lambda>r. r\<lparr>p_keywords := merged_kw, p_address := addr,
                               p_street := street, p_city := city,
                               p_lat := or_float lat (p_lat row),
                               p_lng := or_float lng (p_lng row),
                               p_place_id := or_str place_id (p_place_id row),
                               p_notes := notes, p_updated_at := Some now\<rparr>)
             in (\<lparr>p_id = rec_id, p_name = official_name, p_keywords = merged_kw,
                  p_street = street, p_city = city, p_address = addr,
                  p_lat = or_float lat (p_lat row), p_lng = or_float lng (p_lng row),
                  p_place_id = or_str place_id (p_place_id row),
                  p_created_at = None, p_updated_at = None, p_notes = notes\<rparr>,
                 d\<lparr>db_rows := map (\<lambda>r. if p_id r = rec_id then upd r else r) (db_rows d)\<rparr>)
         | None \<Rightarrow>
             let rec_id = next_id d;
                 new_row = \<lparr>p_id = rec_id, p_name = official_name,
                            p_keywords = normalize_keyword new_keyword,
                            p_street = street, p_city = city, p_address = addr,
                            p_lat = or_float lat (Some 0), p_lng = or_float lng (Some 0),
                            p_place_id = place_id,
                            p_created_at = Some now, p_updated_at = Some now,
                            p_notes = notes\<rparr>
             in (new_row\<lparr>p_created_at := None, p_updated_at := None\<rparr>,
                 \<lparr>db_rows = db_rows d @ [new_row], db_seq = rec_id\<rparr>))"


section \<open>Resolution\<close>

text \<open>
  The two databases and the link table, which lives in the pickup database.
  \<open>init_db\<close> only creates missing tables and columns: it changes no row and is not
  modelled.  A \<open>db_kind\<close> other than the two names makes \<open>_db_path\<close> raise; the type
  \<open>db_kind\<close> has only the two.
\<close>

datatype db_kind = Hotels | Pickup

record link =
  l_id :: nat
  l_hotel_id :: nat
  l_hotel_name :: ustr
  l_pickup_id :: nat
  l_pickup_name :: ustr
  l_priority :: int
  l_notes :: ustr
  l_created_at :: ustr
  l_updated_at :: ustr

record store =
  hotels :: db
  pickup :: db
  links :: "link list"
  link_seq :: nat

definition get_db :: "db_kind \<Rightarrow> store \<Rightarrow> db" where
  "get_db k st = (case k of Hotels \<Rightarrow> hotels st | Pickup \<Rightarrow> pickup st)"

definition put_db :: "db_kind \<Rightarrow> db \<Rightarrow> store \<Rightarrow> store" where
  "put_db k d st = (case k of Hotels \<Rightarrow> st\<lparr>hotels := d\<rparr> | Pickup \<Rightarrow> st\<lparr>pickup := d\<rparr>)"

definition empty_store :: store where
  "empty_store = \<lparr>hotels = empty_db, pickup = empty_db, links = [], link_seq = 0\<rparr>"

text \<open>
  The external provider of \<open>search_address\<close> is the browser session between
  \<open>driver.get\<close> and \<open>_extract_address_and_coords\<close>.  It is the parameter \<open>provider\<close>:
  for a query it gives \<open>(official_name, address, lat, lng)\<close>, or \<open>None\<close> when the result
  list has no place or when the \<open>try\<close> block catches an exception.
  \<^verbatim>\<open>
  def search_address(query, db_kind="hotels"):
      if not query:
          return None
      init_db(db_kind)
      local = find_in_db_exact_keywords_only(query, db_kind) or find_best_in_db_precise(
          query, db_kind)
      if local:
          if "id" in local and local["id"]:
              _append_keyword_to_id(db_kind, local["id"], query)
          return local
      ... the provider ...
          official_name = _extract_place_name()
          address, lat, lng = _extract_address_and_coords()
          saved = save_or_update_db(db_kind, official_name or query, query, address, lat, lng)
          return saved
      except Exception as e:
          return None
  \<close>
\<close>

type_synonym provider = "ustr \<Rightarrow> (ustr \<times> ustr \<times> real option \<times> real option) option"

definition local_lookup :: "(ustr \<Rightarrow> ustr \<Rightarrow> real) \<Rightarrow> ustr \<Rightarrow> db \<Rightarrow> place option" where
  \<comment> \<open>\<open>find_in_db_exact_keywords_only(q, k) or find_best_in_db_precise(q, k)\<close>;
      a dictionary is never false\<close>
  "local_lookup ratio query d =
     (case find_in_db_exact_keywords_only query d of
        Some obj \<Rightarrow> Some obj
      | None \<Rightarrow> find_best_in_db_precise ratio query d)"

definition search_address ::
  "provider \<Rightarrow> (ustr \<Rightarrow> ustr \<Rightarrow> real) \<Rightarrow> ustr \<Rightarrow> ustr \<Rightarrow> db_kind \<Rightarrow> store
     \<Rightarrow> place option \<times> store" where
  "search_address provider ratio now query k st =
     (if query = [] then (None, st)
      else
        case local_lookup ratio query (get_db k st) of
          Some local \<Rightarrow>
            (Some local,
             if p_id local \<noteq> 0
             then put_db k (append_keyword_to_id now (get_db k st) (p_id local) query) st
             else st)
        | None \<Rightarrow>
            (case provider query of
               None \<Rightarrow> (None, st)
             | Some (official_name, address, lat, lng) \<Rightarrow>
                 let (saved, d) = save_or_update_db now (get_db k st)
                                    (or_str official_name query) query address lat lng [] []
                 in (Some saved, put_db k d st)))"

text \<open>
  \<^verbatim>\<open>
  def _haversine_m(lat1, lon1, lat2, lon2):
      try:
          lat1, lon1, lat2, lon2 = map(float, [lat1, lon1, lat2, lon2])
      except:
          return float("inf")
      R = 6371000.0
      phi1 = math.radians(lat1)
      phi2 = math.radians(lat2)
      dphi = math.radians(lat2 - lat1)
      dlmb = math.radians(lon2 - lon1)
      a = (math.sin(dphi / 2) ** 2
           + math.cos(phi1) * math.cos(phi2) * math.sin(dlmb / 2) ** 2)
      return 2 * R * math.asin(math.sqrt(a))
  \<close>
  \<open>float(None)\<close> raises, so a missing coordinate gives infinity: the result \<open>None\<close>.
\<close>

definition radians :: "real \<Rightarrow> real" where
  "radians x = x * pi / 180"

definition haversine_m ::
  "real option \<Rightarrow> real option \<Rightarrow> real option \<Rightarrow> real option \<Rightarrow> real option" where
  "haversine_m lat1 lon1 lat2 lon2 =
     (case (lat1, lon1, lat2, lon2) of
        (Some lat1, Some lon1, Some lat2, Some lon2) \<Rightarrow>
          let R = 6371000;
              phi1 = radians lat1;
              phi2 = radians lat2;
              dphi = radians (lat2 - lat1);
              dlmb = radians (lon2 - lon1);
              a = (sin (dphi / 2))\<^sup>2 + cos phi1 * cos phi2 * (sin (dlmb / 2))\<^sup>2
          in Some (2 * R * arcsin (sqrt a))
      | _ \<Rightarrow> None)"

text \<open>The order of Python floats with infinity, as a sort key: a finite distance is
  below infinity, and two infinities are equal.\<close>

definition dist_key :: "real option \<Rightarrow> bool \<times> real" where
  "dist_key d = (case d of Some x \<Rightarrow> (False, x) | None \<Rightarrow> (True, 0))"

text \<open>A candidate of the provider's result list, \<open>{name, address, lat, lng}\<close>.\<close>

record cand =
  c_name :: ustr
  c_address :: ustr
  c_lat :: "real option"
  c_lng :: "real option"

text \<open>
  \<open>_collect_search_results_topk\<close> is the parameter \<open>topk\<close>; \<open>repr\<close> is the printing of a
  float in an f-string.
  \<^verbatim>\<open>
  def search_address_near(query, near_lat, near_lng, db_kind="pickup"):
      if query is None or query.strip() == "":
          return None
      init_db(db_kind)
      rows = SELECT * FROM table
      pool = []
      for r in rows:
          obj = _row_to_obj(r)
          s, j, e = _best_kw_metrics(query, obj.get("keywords", "") or "")
          if s >= 0.55 or (j >= 0.50 and e >= 0.75):
              dist = _haversine_m(near_lat, near_lng, obj.get("lat"), obj.get("lng"))
              pool.append((dist, s, obj))
      pool.sort(key=lambda x: (x[0], -x[1]))
      if pool and math.isfinite(pool[0][0]):
          best = pool[0][2]
          if best.get("id"):
              _append_keyword_to_id(db_kind, best["id"], query)
          return best
      cands = _collect_search_results_topk(query, topk=6)
      if not cands:
          return None
      for c in cands:
          c["distance_m"] = _haversine_m(near_lat, near_lng, c.get("lat"), c.get("lng"))
      cands = [c for c in cands if math.isfinite(c["distance_m"])]
      if not cands:
          chosen = (cands[0] if cands
                    else {"name": query, "address": "", "lat": None, "lng": None})
      else:
          cands.sort(key=lambda x: x["distance_m"])
          chosen = cands[0]
      saved = save_or_update_db(db_kind=db_kind, official_name=chosen.get("name") or query,
          new_keyword=query, address=chosen.get("address") or "",
          lat=chosen.get("lat"), lng=chosen.get("lng"), place_id="",
          notes=f"nearest to ({near_lat},{near_lng})")
      return saved
  \<close>
\<close>

definition admitted :: "real \<times> real \<times> real \<Rightarrow> bool" where
  \<comment> \<open>the condition \<open>s >= 0.55 or (j >= 0.50 and e >= 0.75)\<close>\<close>
  "admitted m = (case m of (s, j, e) \<Rightarrow> s \<ge> 0.55 \<or> (j \<ge> 0.50 \<and> e \<ge> 0.75))"

definition local_pool ::
  "(ustr \<Rightarrow> ustr \<Rightarrow> real) \<Rightarrow> ustr \<Rightarrow> real \<Rightarrow> real \<Rightarrow> place list
     \<Rightarrow> (real option \<times> real \<times> place) list" where
  "local_pool ratio query near_lat near_lng rows =
     map (\<lambda>obj. (haversine_m (Some near_lat) (Some near_lng) (p_lat obj) (p_lng obj),
                  fst (best_kw_metrics ratio query (p_keywords obj)), obj))
       (filter (\<lambda>obj. admitted (best_kw_metrics ratio query (p_keywords obj))) rows)"

definition search_address_near ::
  "(ustr \<Rightarrow> cand list) \<Rightarrow> (real \<Rightarrow> ustr) \<Rightarrow> (ustr \<Rightarrow> ustr \<Rightarrow> real) \<Rightarrow> ustr \<Rightarrow> ustr \<Rightarrow> real \<Rightarrow> real
     \<Rightarrow> db_kind \<Rightarrow> store \<Rightarrow> place option \<times> store" where
  "search_address_near topk repr ratio now query near_lat near_lng k st =
     (if strip query = [] then (None, st)
      else
        let pool = sort_key (\<lambda>x. (dist_key (fst x), - fst (snd x)))
                     (local_pool ratio query near_lat near_lng (db_rows (get_db k st)))
        in if pool \<noteq> [] \<and> fst (hd pool) \<noteq> None
           then
             let best = snd (snd (hd pool))
             in (Some best,
                 if p_id best \<noteq> 0
                 then put_db k (append_keyword_to_id now (get_db k st) (p_id best) query) st
                 else st)
           else
             let cands0 = topk query
             in if cands0 = [] then (None, st)
                else
                  let with_dist = map (\<lambda>c. (c, haversine_m (Some near_lat) (Some near_lng)
                                                 (c_lat c) (c_lng c))) cands0;
                      cands = filter (\<lambda>x. snd x \<noteq> None) with_dist;
                      synthetic = \<lparr>c_name = query, c_address = [],
                                    c_lat = None, c_lng = None\<rparr>;
                      chosen =
                        (if cands = []
                         then (if cands \<noteq> [] then fst (hd cands) else synthetic)
                         else fst (hd (sort_key (\<lambda>x. dist_key (snd x)) cands)));
                      (saved, d) = save_or_update_db now (get_db k st)
                                     (or_str (c_name chosen) query) query (c_address chosen)
                                     (c_lat chosen) (c_lng chosen) []
                                     (ustr ''nearest to ('' @ repr near_lat @ ustr '','' @
                                      repr near_lng @ ustr '')'')
                  in (Some saved, put_db k d st))"

section \<open>Links\<close>

text \<open>
  \<^verbatim>\<open>
  def link_hotel_to_pickup(hotel_query, pickup_query, priority=1, notes="",
                           create_if_missing=True):
      init_db("hotels")
      init_db("pickup")
      h = find_in_db_exact_keywords_only(hotel_query, "hotels") or find_best_in_db_precise(
          hotel_query, "hotels")
      if not h and create_if_missing:
          h = search_address(hotel_query, db_kind="hotels")
      p = find_in_db_exact_keywords_only(pickup_query, "pickup") or find_best_in_db_precise(
          pickup_query, "pickup")
      if not p and create_if_missing:
          p = search_address(pickup_query, db_kind="pickup")
      if not (h and p):
          return None
      now = _now()
      c.execute("SELECT id FROM hotel_pickup_links WHERE hotel_id=? AND pickup_id=?",
                (h["id"], p["id"]))
      row = c.fetchone()
      if row:
          link_id = row[0]
          UPDATE hotel_pickup_links
             SET hotel_name=h["name"], pickup_name=p["name"], priority=priority,
                 notes=notes or "", updated_at=now
           WHERE id=link_id
      else:
          INSERT INTO hotel_pickup_links
            (hotel_id, hotel_name, pickup_id, pickup_name, priority, notes,
             created_at, updated_at)
          VALUES (h["id"], h["name"], p["id"], p["name"], priority, notes or "", now, now)
          link_id = c.lastrowid
      return {"link_id": link_id, "hotel": h, "pickup": p,
              "priority": priority, "notes": notes or ""}
  \<close>
\<close>

record link_result =
  r_link_id :: nat
  r_hotel :: place
  r_pickup :: place
  r_priority :: int
  r_notes :: ustr

definition upsert_link :: "ustr \<Rightarrow> place \<Rightarrow> place \<Rightarrow> int \<Rightarrow> ustr \<Rightarrow> store \<Rightarrow> nat \<times> store" where
  \<comment> \<open>the \<open>SELECT\<close>, then the \<open>UPDATE\<close> or the \<open>INSERT\<close>, of \<open>link_hotel_to_pickup\<close>\<close>
  "upsert_link now h p priority notes st =
     (case find (\<lambda>l. l_hotel_id l = p_id h \<and> l_pickup_id l = p_id p) (links st) of
        Some row \<Rightarrow>
          let link_id = l_id row
          in (link_id,
              st\<lparr>links := map (\<lambda>l. if l_id l = link_id
                                     then l\<lparr>l_hotel_name := p_name h, l_pickup_name := p_name p,
                                            l_priority := priority, l_notes := notes,
                                            l_updated_at := now\<rparr>
                                     else l) (links st)\<rparr>)
      | None \<Rightarrow>
          let link_id = Suc (fold max (map l_id (links st)) (link_seq st))
          in (link_id,
              st\<lparr>links := links st @
                     [\<lparr>l_id = link_id, l_hotel_id = p_id h, l_hotel_name = p_name h,
                       l_pickup_id = p_id p, l_pickup_name = p_name p,
                       l_priority = priority, l_notes = notes,
                       l_created_at = now, l_updated_at = now\<rparr>],
                 link_seq := link_id\<rparr>))"

definition resolve_side ::
  "provider \<Rightarrow> (ustr \<Rightarrow> ustr \<Rightarrow> real) \<Rightarrow> ustr \<Rightarrow> ustr \<Rightarrow> db_kind \<Rightarrow> bool \<Rightarrow> store
     \<Rightarrow> place option \<times> store" where
  \<comment> \<open>one side of the link: the local stages, then \<open>search_address\<close> when allowed\<close>
  "resolve_side provider ratio now query k create_if_missing st =
     (case local_lookup ratio query (get_db k st) of
        Some obj \<Rightarrow> (Some obj, st)
      | None \<Rightarrow>
          if create_if_missing then search_address provider ratio now query k st
          else (None, st))"

definition link_hotel_to_pickup ::
  "provider \<Rightarrow> (ustr \<Rightarrow> ustr \<Rightarrow> real) \<Rightarrow> ustr \<Rightarrow> ustr \<Rightarrow> ustr \<Rightarrow> int \<Rightarrow> ustr \<Rightarrow> bool \<Rightarrow> store
     \<Rightarrow> link_result option \<times> store" where
  "link_hotel_to_pickup provider ratio now hotel_query pickup_query priority notes
       create_if_missing st =
     (let (h, st1) = resolve_side provider ratio now hotel_query Hotels create_if_missing st;
          (p, st2) = resolve_side provider ratio now pickup_query Pickup create_if_missing st1
      in case (h, p) of
           (Some h, Some p) \<Rightarrow>
             let (link_id, st3) = upsert_link now h p priority notes st2
             in (Some \<lparr>r_link_id = link_id, r_hotel = h, r_pickup = p,
                       r_priority = priority, r_notes = notes\<rparr>, st3)
         | _ \<Rightarrow> (None, st2))"

text \<open>
  \<^verbatim>\<open>
  def unlink_hotel_pickup(hotel, pickup):
      if isinstance(hotel, int):
          hid = hotel
      else:
          h = find_in_db_exact_keywords_only(hotel, "hotels") or find_best_in_db_precise(
              hotel, "hotels")
          if not h:
              return 0
          hid = h["id"]
      ... the same for pickup, giving pid ...
      c.execute("DELETE FROM hotel_pickup_links WHERE hotel_id=? AND pickup_id=?",
                (hid, pid))
      deleted = c.rowcount
      return deleted
  \<close>
\<close>

datatype place_ref = By_id nat | By_query ustr

definition resolve_ref ::
  "(ustr \<Rightarrow> ustr \<Rightarrow> real) \<Rightarrow> place_ref \<Rightarrow> db \<Rightarrow> nat option" where
  "resolve_ref ratio r d =
     (case r of
        By_id i \<Rightarrow> Some i
      | By_query q \<Rightarrow> map_option p_id (local_lookup ratio q d))"

definition unlink_hotel_pickup ::
  "(ustr \<Rightarrow> ustr \<Rightarrow> real) \<Rightarrow> place_ref \<Rightarrow> place_ref \<Rightarrow> store \<Rightarrow> nat \<times> store" where
  "unlink_hotel_pickup ratio hotel pickup' st =
     (case resolve_ref ratio hotel (hotels st) of
        None \<Rightarrow> (0, st)
      | Some hid \<Rightarrow>
          (case resolve_ref ratio pickup' (pickup st) of
             None \<Rightarrow> (0, st)
           | Some pid \<Rightarrow>
               (length (filter (\<lambda>l. l_hotel_id l = hid \<and> l_pickup_id l = pid) (links st)),
                st\<lparr>links := filter (\<lambda>l. \<not> (l_hotel_id l = hid \<and> l_pickup_id l = pid))
                                (links st)\<rparr>)))"


section \<open>Notions used in the statements\<close>

text \<open>A string of characters of the class \<open>kept\<close> and single spaces; in normal form
  it neither starts nor ends with a space.\<close>

definition spaced :: "ustr \<Rightarrow> bool" where
  "spaced u \<longleftrightarrow>
     (\<forall>c\<in>set u. kept c \<or> c = 32) \<and> successively (\<lambda>a b. \<not> (a = 32 \<and> b = 32)) u"

definition norm_form :: "ustr \<Rightarrow> bool" where
  "norm_form t \<longleftrightarrow> spaced t \<and> (t \<noteq> [] \<longrightarrow> hd t \<noteq> 32 \<and> last t \<noteq> 32)"

text \<open>The entries of a \<open>keywords\<close> column as stored: the pieces between semicolons that
  are not blank.\<close>

definition kw_entries :: "ustr \<Rightarrow> ustr list" where
  "kw_entries kw = filter (\<lambda>k. strip k \<noteq> []) (split_on 59 kw)"

text \<open>A well-formed \<open>keywords\<close> column: the semicolon-joined list of sorted, distinct,
  non-empty entries, each of them a fixed point of \<open>normalize_keyword\<close>.\<close>

definition kw_wf :: "ustr \<Rightarrow> bool" where
  "kw_wf kw \<longleftrightarrow>
     (\<exists>L. kw = join 59 L \<and> sorted L \<and> distinct L \<and>
          (\<forall>k\<in>set L. k \<noteq> [] \<and> normalize_keyword k = k))"

text \<open>The tables that hold only rows created and maintained by \<open>save_or_update_db\<close>
  and \<open>_append_keyword_to_id\<close>.\<close>

inductive maintained :: "db \<Rightarrow> bool" where
  fresh: "db_rows d = [] \<Longrightarrow> maintained d"
| saved: "maintained d \<Longrightarrow>
    maintained (snd (save_or_update_db now d official_name new_keyword address lat lng
                       place_id notes))"
| appended: "maintained d \<Longrightarrow> maintained (append_keyword_to_id now d rec_id new_kw)"

section \<open>Example data\<close>

text \<open>The hotel table after one insertion into the empty table.\<close>

definition db1 :: db where
  "db1 = snd (save_or_update_db (ustr ''2025-01-01 10:00:00'') empty_db
                (ustr ''Park Hotel Amsterdam'') (ustr ''Park Hotel'') [] None None [] [])"

text \<open>Two hotel rows: one holds the keyword \<open>park hotel\<close>, the row scanned before it
  a keyword that is only similar.\<close>

definition park_exact :: place where
  "park_exact = \<lparr>p_id = 2, p_name = ustr ''Park Hotel Amsterdam'',
     p_keywords = ustr ''park hotel'', p_street = ustr ''Stadhouderskade 25'',
     p_city = ustr ''Amsterdam'', p_address = ustr ''Stadhouderskade 25, 1071 ZD Amsterdam'',
     p_lat = Some 52.3622, p_lng = Some 4.8832, p_place_id = [],
     p_created_at = Some (ustr ''2025-01-01 10:00:00''),
     p_updated_at = Some (ustr ''2025-01-01 10:00:00''), p_notes = []\<rparr>"

definition park_similar :: place where
  "park_similar = \<lparr>p_id = 1, p_name = ustr ''Park Hotell West'',
     p_keywords = ustr ''park hotell'', p_street = [], p_city = [], p_address = [],
     p_lat = None, p_lng = None, p_place_id = [],
     p_created_at = Some (ustr ''2025-01-01 09:00:00''),
     p_updated_at = Some (ustr ''2025-01-01 09:00:00''), p_notes = []\<rparr>"

definition park_store :: store where
  "park_store = \<lparr>hotels = \<lparr>db_rows = [park_similar, park_exact], db_seq = 2\<rparr>,
                  pickup = empty_db, links = [], link_seq = 0\<rparr>"

text \<open>A provider that resolves every query to the same place.\<close>

definition hoxton_provider :: provider where
  "hoxton_provider q =
     Some (ustr ''The Hoxton, Amsterdam'', ustr ''Herengracht 255, 1016 BJ Amsterdam'',
           Some 52.372, Some 4.895)"

section \<open>Notions used in the statements about links\<close>

text \<open>The link table and its counter are the same in two stores.\<close>

definition same_links :: "store \<Rightarrow> store \<Rightarrow> bool" where
  "same_links st st' \<longleftrightarrow> links st' = links st \<and> link_seq st' = link_seq st"

text \<open>The stores reachable from a store with an empty link table by the operations of
  the program: linking, unlinking, and the two resolutions.\<close>

inductive linked :: "store \<Rightarrow> bool" where
  no_links: "links st = [] \<Longrightarrow> linked st"
| link_step: "linked st \<Longrightarrow>
    linked (snd (link_hotel_to_pickup provider ratio now hotel_query pickup_query priority nts
                   create_if_missing st))"
| unlink_step: "linked st \<Longrightarrow> linked (snd (unlink_hotel_pickup ratio hotel pickup' st))"
| search_step: "linked st \<Longrightarrow> linked (snd (search_address provider ratio now query k st))"
| near_step: "linked st \<Longrightarrow>
    linked (snd (search_address_near topk repr ratio now query near_lat near_lng k st))"

text \<open>The link rows of a pair \<open>(hotel_id, pickup_id)\<close>; a table with at most one row
  for every pair.\<close>

definition pair_rows :: "nat \<Rightarrow> nat \<Rightarrow> link list \<Rightarrow> link list" where
  "pair_rows h p ls = filter (\<lambda>l. l_hotel_id l = h \<and> l_pickup_id l = p) ls"

definition pair_unique :: "link list \<Rightarrow> bool" where
  "pair_unique ls \<longleftrightarrow> (\<forall>h p. length (pair_rows h p ls) \<le> 1)"

text \<open>A pickup row, a store with the two hotel rows and that pickup row, and a provider
  that always fails.\<close>

definition dam_pickup :: place where
  "dam_pickup = \<lparr>p_id = 1, p_name = ustr ''Dam Square'',
     p_keywords = ustr ''dam square'', p_street = ustr ''Dam'',
     p_city = ustr ''Amsterdam'', p_address = ustr ''Dam, 1012 NP Amsterdam'',
     p_lat = Some 52.3731, p_lng = Some 4.8926, p_place_id = [],
     p_created_at = Some (ustr ''2025-01-01 10:00:00''),
     p_updated_at = Some (ustr ''2025-01-01 10:00:00''), p_notes = []\<rparr>"

definition link_store :: store where
  "link_store = park_store\<lparr>pickup := \<lparr>db_rows = [dam_pickup], db_seq = 1\<rparr>\<rparr>"

definition no_provider :: provider where
  "no_provider q = None"

section \<open>Notions used in the statements about the scored-precise stage\<close>




text \<open>The top-ranked row: the first row in scan order of maximal score.  The second-best
  score: the largest score among the other rows, and 0 when there is no other row.\<close>

definition top_ranked :: "(place \<Rightarrow> real) \<Rightarrow> place list \<Rightarrow> place option" where
  "top_ranked S rows = find (\<lambda>r. \<forall>x\<in>set rows. S x \<le> S r) rows"

definition second_best_score :: "(place \<Rightarrow> real) \<Rightarrow> place list \<Rightarrow> place \<Rightarrow> real" where
  "second_best_score S rows t =
     (if remove1 t rows = [] then 0 else Max (S ` set (remove1 t rows)))"


text \<open>Stand-ins for the similarity ratio, keyword texts of four, five and six tokens, and
  a row that holds a given keyword text.\<close>

definition ratio_092 :: "ustr \<Rightarrow> ustr \<Rightarrow> real" where "ratio_092 a b = 0.92"






text \<open>A candidate of the provider that has a name and an address but no coordinates.\<close>

definition coordless_cand :: cand where
  "coordless_cand = \<lparr>c_name = ustr ''Dam Square Meeting Point'',
     c_address = ustr ''Dam 1, 1012 JS Amsterdam'', c_lat = None, c_lng = None\<rparr>"

section \<open>Normalisation\<close>

lemma kept_not_space: "kept c \<Longrightarrow> \<not> is_space c"
  by (auto simp: kept_def is_space_def)

lemma space_32: "is_space 32" by (simp add: is_space_def)
lemma not_kept_32: "\<not> kept 32" by (simp add: kept_def)

lemma re_sub_runs_id:
  "(\<forall>c\<in>set u. p c \<longrightarrow> c = 32) \<Longrightarrow> successively (\<lambda>a b. \<not> (p a \<and> p b)) u \<Longrightarrow> re_sub_runs p u = u"
proof (induction u)
  case Nil
  then show ?case by simp
next
  case (Cons c cs)
  have tl: "re_sub_runs p cs = cs"
    using Cons by (auto simp: successively_Cons)
  show ?case
  proof (cases "p c")
    case True
    then have "c = 32" using Cons.prems by simp
    moreover have "dropWhile p cs = cs"
      using Cons.prems(2) True by (cases cs) (auto)
    ultimately show ?thesis using True tl by simp
  next
    case False
    then show ?thesis using tl by simp
  qed
qed

lemma re_sub_runs_hd:
  "t \<noteq> [] \<Longrightarrow> \<not> p (hd t) \<Longrightarrow> hd (re_sub_runs p t) = hd t \<and> re_sub_runs p t \<noteq> []"
  by (cases t) auto

lemma re_sub_runs_spaced: "spaced (re_sub_runs (\<lambda>c. \<not> kept c) s)"
proof (induction "\<lambda>c. \<not> kept c" s rule: re_sub_runs.induct)
  case 1
  then show ?case by (simp add: spaced_def)
next
  case (2 c cs)
  show ?case
  proof (cases "kept c")
    case True
    then have ih: "spaced (re_sub_runs (\<lambda>c. \<not> kept c) cs)" using 2 by simp
    then show ?thesis using True
      by (auto simp: spaced_def successively_Cons not_kept_32)
  next
    case False
    let ?t = "dropWhile (\<lambda>c. \<not> kept c) cs"
    have ih: "spaced (re_sub_runs (\<lambda>c. \<not> kept c) ?t)" using 2 False by simp
    have "?t \<noteq> [] \<Longrightarrow> kept (hd ?t)"
      using hd_dropWhile [of "\<lambda>c. \<not> kept c" cs] by simp
    then have "re_sub_runs (\<lambda>c. \<not> kept c) ?t \<noteq> [] \<Longrightarrow> hd (re_sub_runs (\<lambda>c. \<not> kept c) ?t) \<noteq> 32"
      using re_sub_runs_hd [of ?t "\<lambda>c. \<not> kept c"] not_kept_32
      by (cases "?t = []") auto
    then show ?thesis using False ih
      by (auto simp: spaced_def successively_Cons)
  qed
qed

lemma successively_dropWhile: "successively P u \<Longrightarrow> successively P (dropWhile q u)"
  by (induction u) (auto simp: successively_Cons)

lemma spaced_dropWhile: "spaced u \<Longrightarrow> spaced (dropWhile q u)"
  unfolding spaced_def using set_dropWhileD [of _ q u] by (auto intro: successively_dropWhile)

lemma spaced_rev: "spaced u \<Longrightarrow> spaced (rev u)"
  unfolding spaced_def by (auto elim!: successively_mono)

lemma spaced_strip: "spaced u \<Longrightarrow> spaced (strip u)"
  unfolding strip_def by (intro spaced_rev spaced_dropWhile)

lemma last_dropWhile: "dropWhile q u \<noteq> [] \<Longrightarrow> last (dropWhile q u) = last u"
  by (induction u) (auto split: if_splits)

lemma strip_ends:
  assumes "strip u \<noteq> []"
  shows "\<not> is_space (hd (strip u))" and "\<not> is_space (last (strip u))"
proof -
  define v where "v = dropWhile is_space u"
  define w where "w = dropWhile is_space (rev v)"
  have s: "strip u = rev w" by (simp add: strip_def v_def w_def)
  have w: "w \<noteq> []" using assms s by simp
  have v: "v \<noteq> []" using w unfolding w_def by auto
  have "hd (strip u) = last w" using w s by (simp add: hd_rev)
  also have "\<dots> = last (rev v)" using w unfolding w_def by (rule last_dropWhile)
  also have "\<dots> = hd v" using v by (simp add: last_rev)
  finally show "\<not> is_space (hd (strip u))"
    using hd_dropWhile [of is_space u] v unfolding v_def by simp
  have "last (strip u) = hd w" using w s by (simp add: last_rev)
  then show "\<not> is_space (last (strip u))"
    using hd_dropWhile [of is_space "rev v"] w unfolding w_def by simp
qed

lemma norm_form_normalize: "norm_form (normalize_keyword s)"
proof -
  let ?s2 = "re_sub_runs (\<lambda>c. \<not> kept c) (strip (lower s))"
  have sp: "spaced ?s2" by (rule re_sub_runs_spaced)
  have "re_sub_runs is_space ?s2 = ?s2"
  proof (rule re_sub_runs_id)
    show "\<forall>c\<in>set ?s2. is_space c \<longrightarrow> c = 32"
      using sp kept_not_space by (auto simp: spaced_def)
    show "successively (\<lambda>a b. \<not> (is_space a \<and> is_space b)) ?s2"
      using sp kept_not_space
      by (auto simp: spaced_def elim!: successively_mono)
  qed
  then have eq: "normalize_keyword s = strip ?s2"
    by (simp add: normalize_keyword_def)
  have "spaced (strip ?s2)" using sp by (rule spaced_strip)
  moreover have "strip ?s2 \<noteq> [] \<Longrightarrow> hd (strip ?s2) \<noteq> 32 \<and> last (strip ?s2) \<noteq> 32"
    using strip_ends [of ?s2] space_32 by auto
  ultimately show ?thesis by (simp add: eq norm_form_def)
qed

lemma strip_id: "t \<noteq> [] \<longrightarrow> \<not> is_space (hd t) \<and> \<not> is_space (last t) \<Longrightarrow> strip t = t"
proof (cases t)
  case Nil
  then show ?thesis by (simp add: strip_def)
next
  case (Cons c cs)
  assume a: "t \<noteq> [] \<longrightarrow> \<not> is_space (hd t) \<and> \<not> is_space (last t)"
  then have 1: "dropWhile is_space t = t" using Cons by simp
  have "rev t \<noteq> []" "hd (rev t) = last t" using Cons by (simp_all add: hd_rev)
  then have 2: "dropWhile is_space (rev t) = rev t"
    using a Cons by (cases "rev t") auto
  show ?thesis by (simp add: strip_def 1 2)
qed

lemma norm_form_ends:
  assumes "norm_form t" "t \<noteq> []"
  shows "kept (hd t)" "kept (last t)"
  using assms by (auto simp: norm_form_def spaced_def dest: hd_in_set last_in_set)

lemma norm_form_strip: "norm_form t \<Longrightarrow> strip t = t"
  by (rule strip_id) (auto dest: norm_form_ends kept_not_space)

lemma lower_id: "\<forall>c\<in>set t. kept c \<or> c = 32 \<Longrightarrow> lower t = t"
proof (induction t)
  case Nil
  then show ?case by (simp add: lower_def)
next
  case (Cons c cs)
  then have "lower cs = cs" by simp
  moreover have "lower_char c = [c]"
    using Cons.prems by (auto simp: lower_char_def kept_def)
  ultimately show ?case by (simp add: lower_def)
qed

lemma norm_form_fixed: "norm_form t \<Longrightarrow> normalize_keyword t = t"
proof -
  assume nf: "norm_form t"
  then have sp: "spaced t" by (simp add: norm_form_def)
  have 1: "lower t = t" using sp by (intro lower_id) (simp add: spaced_def)
  have 2: "strip t = t" using nf by (rule norm_form_strip)
  have 3: "re_sub_runs (\<lambda>c. \<not> kept c) t = t"
    using sp by (intro re_sub_runs_id) (auto simp: spaced_def elim!: successively_mono)
  have 4: "re_sub_runs is_space t = t"
    using sp kept_not_space
    by (intro re_sub_runs_id) (auto simp: spaced_def elim!: successively_mono)
  show ?thesis by (simp add: normalize_keyword_def 1 2 3 4)
qed

lemma normalize_idem: "normalize_keyword (normalize_keyword s) = normalize_keyword s"
  by (rule norm_form_fixed) (rule norm_form_normalize)

lemma norm_form_no_semicolon: "norm_form t \<Longrightarrow> 59 \<notin> set t"
  by (auto simp: norm_form_def spaced_def kept_def)

section \<open>Keyword lists\<close>

lemma kw_list_entries: "kw_list kw = map normalize_keyword (kw_entries kw)"
  by (simp add: kw_list_def kw_entries_def)

lemma split_on_nosep: "sep \<notin> set x \<Longrightarrow> split_on sep x = [x]"
  by (induction x) auto

lemma split_on_append: "sep \<notin> set x \<Longrightarrow> split_on sep (x @ sep # r) = x # split_on sep r"
  by (induction x) auto

lemma split_join:
  "\<forall>k\<in>set L. sep \<notin> set k \<Longrightarrow> L \<noteq> [] \<Longrightarrow> split_on sep (join sep L) = L"
  by (induction sep L rule: join.induct) (auto simp: split_on_nosep split_on_append)

lemma fixed_norm_form: "normalize_keyword k = k \<Longrightarrow> norm_form k"
  using norm_form_normalize [of k] by simp

lemma entries_join:
  assumes "\<forall>k\<in>set L. k \<noteq> [] \<and> normalize_keyword k = k"
  shows "kw_entries (join 59 L) = L"
    and "filter (\<lambda>k. k \<noteq> [] \<and> strip k \<noteq> []) (split_on 59 (join 59 L)) = L"
    and "map normalize_keyword L = L"
proof -
  have nf: "\<forall>k\<in>set L. norm_form k" using assms fixed_norm_form by blast
  have keep: "\<forall>k\<in>set L. k \<noteq> [] \<and> strip k \<noteq> []"
    using assms nf by (auto simp: norm_form_strip)
  show "map normalize_keyword L = L" using assms by (simp add: map_idI)
  show "kw_entries (join 59 L) = L"
  proof (cases "L = []")
    case True
    then show ?thesis by (simp add: kw_entries_def strip_def)
  next
    case False
    have "split_on 59 (join 59 L) = L"
      using nf norm_form_no_semicolon False by (intro split_join) auto
    then show ?thesis using keep by (simp add: kw_entries_def)
  qed
  show "filter (\<lambda>k. k \<noteq> [] \<and> strip k \<noteq> []) (split_on 59 (join 59 L)) = L"
  proof (cases "L = []")
    case True
    then show ?thesis by simp
  next
    case False
    have "split_on 59 (join 59 L) = L"
      using nf norm_form_no_semicolon False by (intro split_join) auto
    then show ?thesis using keep by simp
  qed
qed

lemma kw_list_join:
  "\<forall>k\<in>set L. k \<noteq> [] \<and> normalize_keyword k = k \<Longrightarrow> kw_list (join 59 L) = L"
  by (simp add: kw_list_entries entries_join)

lemma merge_keywords_join:
  assumes "\<forall>k\<in>set L. k \<noteq> [] \<and> normalize_keyword k = k"
  shows "merge_keywords (join 59 L) new =
           join 59 (sort (remdups (if normalize_keyword new \<noteq> [] \<and> normalize_keyword new \<notin> set L
                                   then L @ [normalize_keyword new] else L)))"
  using entries_join(2,3) [OF assms] by (simp add: merge_keywords_def Let_def)

lemma merge_keywords_present:
  assumes "\<forall>k\<in>set L. k \<noteq> [] \<and> normalize_keyword k = k" "sorted L" "distinct L"
    and "normalize_keyword new = [] \<or> normalize_keyword new \<in> set L"
  shows "merge_keywords (join 59 L) new = join 59 L"
proof -
  have "sort (remdups L) = L"
    using assms(2,3) by (simp add: distinct_remdups_id sort_key_id_if_sorted)
  then show ?thesis
    using assms(4) by (auto simp: merge_keywords_join [OF assms(1)])
qed

lemma kw_wf_merge: "kw_wf old \<Longrightarrow> kw_wf (merge_keywords old new)"
proof -
  assume "kw_wf old"
  then obtain L where L: "old = join 59 L" "sorted L" "distinct L"
      "\<forall>k\<in>set L. k \<noteq> [] \<and> normalize_keyword k = k"
    by (auto simp: kw_wf_def)
  define L' where "L' = (if normalize_keyword new \<noteq> [] \<and> normalize_keyword new \<notin> set L
                          then L @ [normalize_keyword new] else L)"
  have L': "\<forall>k\<in>set L'. k \<noteq> [] \<and> normalize_keyword k = k"
    using L(4) by (auto simp: L'_def normalize_idem)
  have "merge_keywords old new = join 59 (sort (remdups L'))"
    unfolding L(1) L'_def by (rule merge_keywords_join [OF L(4)])
  moreover have "sorted (sort (remdups L'))" "distinct (sort (remdups L'))"
    "\<forall>k\<in>set (sort (remdups L')). k \<noteq> [] \<and> normalize_keyword k = k"
    using L' by simp_all
  ultimately show ?thesis unfolding kw_wf_def by blast
qed

lemma kw_wf_normalize: "kw_wf (normalize_keyword new)"
proof (cases "normalize_keyword new = []")
  case True
  have "join 59 ([] :: ustr list) = []" by simp
  then show ?thesis unfolding kw_wf_def True
    by (intro exI [of _ "[]"]) simp
next
  case False
  then show ?thesis unfolding kw_wf_def
    by (intro exI [of _ "[normalize_keyword new]"]) (simp add: normalize_idem)
qed

section \<open>Well-formed keyword columns\<close>

lemma find_mem: "find P xs = Some x \<Longrightarrow> x \<in> set xs"
  by (auto simp: find_Some_iff)

lemma save_rows_wf:
  assumes "\<forall>r\<in>set (db_rows d). kw_wf (p_keywords r)"
  shows "\<forall>r\<in>set (db_rows (snd (save_or_update_db now d nm kw addr lat lng pid notes))).
           kw_wf (p_keywords r)"
proof (cases "find (\<lambda>r. p_name r = nm) (db_rows d)")
  case None
  then show ?thesis using assms
    by (auto simp: save_or_update_db_def Let_def kw_wf_normalize split: prod.splits)
next
  case (Some row)
  then have "kw_wf (p_keywords row)" using assms find_mem by fast
  then have "kw_wf (merge_keywords (p_keywords row) kw)" by (rule kw_wf_merge)
  then show ?thesis using assms Some
    by (auto simp: save_or_update_db_def Let_def split: prod.splits)
qed

lemma append_rows_wf:
  assumes "\<forall>r\<in>set (db_rows d). kw_wf (p_keywords r)"
  shows "\<forall>r\<in>set (db_rows (append_keyword_to_id now d i kw)). kw_wf (p_keywords r)"
proof (cases "find (\<lambda>r. p_id r = i) (db_rows d)")
  case None
  then show ?thesis using assms by (simp add: append_keyword_to_id_def)
next
  case (Some row)
  then have "kw_wf (p_keywords row)" using assms find_mem by fast
  then have "kw_wf (merge_keywords (p_keywords row) kw)" by (rule kw_wf_merge)
  then show ?thesis using assms Some
    by (auto simp: append_keyword_to_id_def Let_def)
qed

lemma maintained_wf: "maintained d \<Longrightarrow> \<forall>r\<in>set (db_rows d). kw_wf (p_keywords r)"
proof (induction rule: maintained.induct)
  case (fresh d)
  then show ?case by simp
next
  case (saved d now official_name new_keyword address lat lng place_id nts)
  then show ?case by (intro save_rows_wf)
next
  case (appended d now rec_id new_kw)
  then show ?case by (intro append_rows_wf)
qed

lemma append_present_noop:
  assumes "find (\<lambda>r. p_id r = i) (db_rows d) = Some row" "kw_wf (p_keywords row)"
    and "normalize_keyword new \<in> set (kw_list (p_keywords row))"
  shows "append_keyword_to_id now d i new = d"
proof -
  obtain L where L: "p_keywords row = join 59 L" "sorted L" "distinct L"
      "\<forall>k\<in>set L. k \<noteq> [] \<and> normalize_keyword k = k"
    using assms(2) by (auto simp: kw_wf_def)
  have "normalize_keyword new \<in> set L"
    using assms(3) kw_list_join [OF L(4)] by (simp add: L(1))
  then have "merge_keywords (p_keywords row) new = p_keywords row"
    unfolding L(1) by (intro merge_keywords_present L) simp
  then show ?thesis using assms(1) by (simp add: append_keyword_to_id_def)
qed

text \<open>
  Claim C10.  In a table whose rows were created and maintained only by
  \<open>save_or_update_db\<close> and \<open>_append_keyword_to_id\<close>, every \<open>keywords\<close> column is the
  semicolon-joined list of lexicographically sorted, distinct, normalised entries; and
  appending to a row a keyword whose normalised form is already among its entries
  writes nothing: the table, with the column \<open>keywords\<close> and \<open>updated_at\<close> of the row,
  is unchanged.
\<close>

theorem C10_keywords_invariant:
  assumes "maintained d"
  shows "(\<forall>r\<in>set (db_rows d). kw_wf (p_keywords r)) \<and>
         (\<forall>now i new row.
            find (\<lambda>r. p_id r = i) (db_rows d) = Some row \<and>
            normalize_keyword new \<in> set (kw_list (p_keywords row))
            \<longrightarrow> append_keyword_to_id now d i new = d)"
proof (intro conjI allI impI)
  show wf: "\<forall>r\<in>set (db_rows d). kw_wf (p_keywords r)"
    using assms by (rule maintained_wf)
  fix now i new row
  assume a: "find (\<lambda>r. p_id r = i) (db_rows d) = Some row \<and>
             normalize_keyword new \<in> set (kw_list (p_keywords row))"
  then have "kw_wf (p_keywords row)" using wf find_mem by fast
  then show "append_keyword_to_id now d i new = d"
    using a by (intro append_present_noop [of i d row]) simp_all
qed

lemmas str_eval = ustr_def normalize_keyword_def lower_def lower_char_def strip_def
  is_space_def kept_def

lemma db1_rows:
  "db1 = \<lparr>db_rows = [\<lparr>p_id = 1, p_name = ustr ''Park Hotel Amsterdam'',
             p_keywords = ustr ''park hotel'', p_street = [], p_city = [], p_address = [],
             p_lat = Some 0, p_lng = Some 0, p_place_id = [],
             p_created_at = Some (ustr ''2025-01-01 10:00:00''),
             p_updated_at = Some (ustr ''2025-01-01 10:00:00''), p_notes = []\<rparr>], db_seq = 1\<rparr>"
  by (simp add: db1_def save_or_update_db_def empty_db_def next_id_def
      clean_country_suffix_def split_address_def or_float_def str_eval)

theorem C10_keywords_invariant_witness:
  "maintained db1 \<and> kw_wf (ustr ''park hotel'') \<and>
   append_keyword_to_id (ustr ''2025-01-02 09:00:00'') db1 1 (ustr ''PARK  hotel!'') = db1"
proof -
  have m: "maintained db1"
    unfolding db1_def by (rule maintained.saved, rule maintained.fresh) (simp add: empty_db_def)
  note inv = C10_keywords_invariant [OF m]
  have 1: "kw_wf (ustr ''park hotel'')"
    using inv by (simp add: db1_rows)
  have "find (\<lambda>r. p_id r = 1) (db_rows db1) = Some (hd (db_rows db1)) \<and>
        normalize_keyword (ustr ''PARK  hotel!'') \<in> set (kw_list (p_keywords (hd (db_rows db1))))"
    by (simp add: db1_rows kw_list_def str_eval)
  with inv have "append_keyword_to_id (ustr ''2025-01-02 09:00:00'') db1 1 (ustr ''PARK  hotel!'') = db1"
    by blast
  with m 1 show ?thesis by simp
qed

section \<open>The exact-keyword stage\<close>

lemma get_put_db [simp]: "get_db k (put_db k d st) = d"
  by (cases k) (simp_all add: get_db_def put_db_def)

lemma normalize_empty [simp]: "normalize_keyword [] = []"
  by (simp add: normalize_keyword_def lower_def strip_def)

lemma entry_in_kw_list:
  assumes "normalize_keyword query \<in> set (kw_entries kw)"
  shows "normalize_keyword query \<in> set (kw_list kw)"
proof -
  have "normalize_keyword (normalize_keyword query) \<in> normalize_keyword ` set (kw_entries kw)"
    using assms by (rule imageI)
  then show ?thesis by (simp add: kw_list_entries normalize_idem)
qed

lemma entry_nonempty: "x \<in> set (kw_entries kw) \<Longrightarrow> x \<noteq> []"
  by (auto simp: kw_entries_def strip_def)

lemma find_first:
  "find P xs = Some x \<Longrightarrow> \<exists>ys zs. xs = ys @ x # zs \<and> P x \<and> (\<forall>y\<in>set ys. \<not> P y)"
proof (induction xs)
  case Nil
  then show ?case by simp
next
  case (Cons a xs)
  show ?case
  proof (cases "P a")
    case True
    then have "x = a" using Cons.prems by simp
    then show ?thesis using True by (intro exI [of _ "[]"] exI [of _ xs]) simp
  next
    case False
    then have "find P xs = Some x" using Cons.prems by simp
    then obtain ys zs where "xs = ys @ x # zs" "P x" "\<forall>y\<in>set ys. \<not> P y"
      using Cons.IH by blast
    then show ?thesis using False
      by (intro exI [of _ "a # ys"] exI [of _ zs]) simp
  qed
qed

lemma search_address_exact:
  assumes "query \<noteq> []" "find_in_db_exact_keywords_only query (get_db k st) = Some r'"
  shows "search_address provider ratio now query k st =
           (Some r', if p_id r' \<noteq> 0
                     then put_db k (append_keyword_to_id now (get_db k st) (p_id r') query) st
                     else st)"
  using assms by (simp add: search_address_def local_lookup_def)

text \<open>
  Claim C6.  If the normalised query is one of the stored keyword entries of some row
  of the table, then \<open>search_address\<close> returns the row found by the exact-keyword
  stage: the first row in scan order whose keyword list holds the normalised query.
  The result and the resulting store are the same for every provider and every
  similarity ratio, so neither the scored-precise stage nor the provider decides
  anything.  (With the query \<open>Park Hotel\<close> the row holding \<open>park hotel\<close> is returned,
  though a row with a similar keyword is scanned first: see the witness.)
\<close>

theorem C6_exact_keyword_stage:
  assumes "r \<in> set (db_rows (get_db k st))"
    and "normalize_keyword query \<in> set (kw_entries (p_keywords r))"
  shows "\<exists>r' ys zs.
           find_in_db_exact_keywords_only query (get_db k st) = Some r' \<and>
           db_rows (get_db k st) = ys @ r' # zs \<and>
           normalize_keyword query \<in> set (kw_list (p_keywords r')) \<and>
           (\<forall>y\<in>set ys. normalize_keyword query \<notin> set (kw_list (p_keywords y))) \<and>
           (\<forall>provider ratio now. fst (search_address provider ratio now query k st) = Some r') \<and>
           (\<forall>provider ratio provider' ratio' now.
              search_address provider ratio now query k st =
              search_address provider' ratio' now query k st)"
proof -
  let ?q = "normalize_keyword query"
  let ?P = "\<lambda>obj. ?q \<in> set (kw_list (p_keywords obj))"
  have "?q \<noteq> []" using assms(2) by (rule entry_nonempty)
  then have ne: "query \<noteq> []" by auto
  have "?P r" using assms(2) by (rule entry_in_kw_list)
  then have "find ?P (db_rows (get_db k st)) \<noteq> None"
    using assms(1) by (auto simp: find_None_iff)
  then obtain r' where r': "find ?P (db_rows (get_db k st)) = Some r'" by auto
  then have ex: "find_in_db_exact_keywords_only query (get_db k st) = Some r'"
    by (simp add: find_in_db_exact_keywords_only_def)
  obtain ys zs where d: "db_rows (get_db k st) = ys @ r' # zs" "?P r'" "\<forall>y\<in>set ys. \<not> ?P y"
    using find_first [OF r'] by blast
  have sa: "\<And>provider ratio now. search_address provider ratio now query k st =
           (Some r', if p_id r' \<noteq> 0
                     then put_db k (append_keyword_to_id now (get_db k st) (p_id r') query) st
                     else st)"
    using ne ex by (rule search_address_exact)
  show ?thesis
    using ex d by (intro exI [of _ r'] exI [of _ ys] exI [of _ zs]) (simp add: sa)
qed

theorem C6_exact_keyword_stage_witness:
  "park_exact \<in> set (db_rows (get_db Hotels park_store)) \<and>
   normalize_keyword (ustr ''Park Hotel'') \<in> set (kw_entries (p_keywords park_exact)) \<and>
   fst (search_address (\<lambda>q. None) (\<lambda>a b. 1) (ustr ''2025-01-02 09:00:00'') (ustr ''Park Hotel'')
          Hotels park_store) = Some park_exact"
proof -
  have 1: "park_exact \<in> set (db_rows (get_db Hotels park_store))"
    by (simp add: park_store_def get_db_def)
  have 2: "normalize_keyword (ustr ''Park Hotel'') \<in> set (kw_entries (p_keywords park_exact))"
    by (simp add: park_exact_def kw_entries_def str_eval)
  have 3: "find_in_db_exact_keywords_only (ustr ''Park Hotel'') (get_db Hotels park_store)
             = Some park_exact"
    by (simp add: find_in_db_exact_keywords_only_def park_store_def get_db_def kw_list_def
        park_exact_def park_similar_def str_eval)
  from C6_exact_keyword_stage [OF 1 2] 3 1 2 show ?thesis by auto
qed

section \<open>Resolving the same query twice\<close>

lemma best_kw_metrics_empty [simp]: "best_kw_metrics ratio query [] = (0, 0, 0)"
  by (simp add: best_kw_metrics_def strip_def)

lemma kw_list_empty [simp]: "kw_list [] = []"
  by (simp add: kw_list_def strip_def)

lemma local_lookup_no_rows: "db_rows d = [] \<Longrightarrow> local_lookup ratio query d = None"
  by (simp add: local_lookup_def find_in_db_exact_keywords_only_def find_best_in_db_precise_def)

lemma find_best_single_empty_kw:
  "db_rows d = [row] \<Longrightarrow> p_keywords row = [] \<Longrightarrow> find_best_in_db_precise ratio query d = None"
  by (simp add: find_best_in_db_precise_def JACCARD_MIN_def)

lemma save_insert:
  assumes "db_rows d = []"
  shows "\<exists>row. save_or_update_db now d nm kw addr lat lng pid nts =
                 (row\<lparr>p_created_at := None, p_updated_at := None\<rparr>,
                  \<lparr>db_rows = [row], db_seq = p_id row\<rparr>) \<and>
               p_id row \<noteq> 0 \<and> p_name row = nm \<and> p_keywords row = normalize_keyword kw"
  using assms
  by (simp add: save_or_update_db_def Let_def next_id_def split: prod.splits)

lemma save_update_single:
  assumes "db_rows d = [row]" "p_name row = nm"
  shows "\<exists>row' obj. save_or_update_db now d nm kw addr lat lng pid nts =
                 (obj, d\<lparr>db_rows := [row']\<rparr>) \<and>
               p_id obj = p_id row \<and> p_id row' = p_id row \<and>
               p_keywords row' = merge_keywords (p_keywords row) kw \<and>
               p_keywords obj = merge_keywords (p_keywords row) kw"
proof -
  obtain street city where sc: "split_address (clean_country_suffix addr) = (street, city)"
    by (cases "split_address (clean_country_suffix addr)")
  define row' where "row' = row\<lparr>p_keywords := merge_keywords (p_keywords row) kw,
       p_address := clean_country_suffix addr, p_street := street, p_city := city,
       p_lat := or_float lat (p_lat row), p_lng := or_float lng (p_lng row),
       p_place_id := or_str pid (p_place_id row), p_notes := nts, p_updated_at := Some now\<rparr>"
  have "snd (save_or_update_db now d nm kw addr lat lng pid nts) = d\<lparr>db_rows := [row']\<rparr>"
    using assms sc by (simp add: save_or_update_db_def Let_def row'_def)
  moreover have "p_id (fst (save_or_update_db now d nm kw addr lat lng pid nts)) = p_id row"
    "p_keywords (fst (save_or_update_db now d nm kw addr lat lng pid nts)) =
       merge_keywords (p_keywords row) kw"
    using assms sc by (simp_all add: save_or_update_db_def Let_def)
  moreover have "p_id row' = p_id row" "p_keywords row' = merge_keywords (p_keywords row) kw"
    by (simp_all add: row'_def)
  ultimately show ?thesis
    by (intro exI [of _ row'] exI [of _ "fst (save_or_update_db now d nm kw addr lat lng pid nts)"])
       (simp add: prod_eq_iff)
qed

lemma merge_keywords_empty: "normalize_keyword new = [] \<Longrightarrow> merge_keywords [] new = []"
  using merge_keywords_present [of "[]" new] by simp

lemma kw_list_single:
  "normalize_keyword q \<noteq> [] \<Longrightarrow> kw_list (normalize_keyword q) = [normalize_keyword q]"
  using kw_list_join [of "[normalize_keyword q]"] by (simp add: normalize_idem)

lemma split_on_normalize: "split_on 59 (normalize_keyword q) = [normalize_keyword q]"
  by (intro split_on_nosep norm_form_no_semicolon norm_form_normalize)

text \<open>
  Claim C5.  On a table without rows, two calls of \<open>search_address\<close> with the same
  non-empty query, the provider resolving it to the same place, return records with the
  same id; afterwards the table has one row, with that id, whose \<open>keywords\<close> column is
  the normalised query: splitting it at semicolons gives exactly that one entry.
\<close>

theorem C5_same_query_twice:
  assumes "query \<noteq> []" "db_rows (get_db k st) = []"
    and "provider query = Some (official_name, address, lat, lng)"
  shows "\<exists>o1 st1 o2 st2 row.
           search_address provider ratio now1 query k st = (Some o1, st1) \<and>
           search_address provider ratio now2 query k st1 = (Some o2, st2) \<and>
           p_id o1 = p_id o2 \<and>
           db_rows (get_db k st2) = [row] \<and> p_id row = p_id o2 \<and>
           p_keywords o2 = normalize_keyword query \<and>
           p_keywords row = normalize_keyword query \<and>
           split_on 59 (p_keywords row) = [normalize_keyword query]"
proof -
  define nm where "nm = or_str official_name query"
  obtain row where row:
    "save_or_update_db now1 (get_db k st) nm query address lat lng [] [] =
       (row\<lparr>p_created_at := None, p_updated_at := None\<rparr>, \<lparr>db_rows = [row], db_seq = p_id row\<rparr>)"
    "p_id row \<noteq> 0" "p_name row = nm" "p_keywords row = normalize_keyword query"
    using save_insert [OF assms(2)] by blast
  define d1 where "d1 = \<lparr>db_rows = [row], db_seq = p_id row\<rparr>"
  define st1 where "st1 = put_db k d1 st"
  define o1 where "o1 = row\<lparr>p_created_at := None, p_updated_at := None\<rparr>"
  have first: "search_address provider ratio now1 query k st = (Some o1, st1)"
    using assms row(1)
    by (simp add: search_address_def local_lookup_no_rows nm_def o1_def st1_def d1_def)
  have g1: "get_db k st1 = d1" by (simp add: st1_def)
  have rows1: "db_rows d1 = [row]" by (simp add: d1_def)
  show ?thesis
  proof (cases "normalize_keyword query = []")
    case False
    have kl: "kw_list (p_keywords row) = [normalize_keyword query]"
      using False by (simp add: row(4) kw_list_single)
    have ex: "find_in_db_exact_keywords_only query (get_db k st1) = Some row"
      by (simp add: find_in_db_exact_keywords_only_def g1 rows1 kl)
    have "append_keyword_to_id now2 d1 (p_id row) query = d1"
    proof (rule append_present_noop)
      show "find (\<lambda>r. p_id r = p_id row) (db_rows d1) = Some row" by (simp add: rows1)
      show "kw_wf (p_keywords row)" by (simp add: row(4) kw_wf_normalize)
      show "normalize_keyword query \<in> set (kw_list (p_keywords row))" by (simp add: kl)
    qed
    then have second: "search_address provider ratio now2 query k st1 = (Some row, put_db k d1 st1)"
      using search_address_exact [OF assms(1) ex] row(2) by (simp add: g1)
    show ?thesis
      using first second row(4) rows1
      by (intro exI [of _ o1] exI [of _ st1] exI [of _ row] exI [of _ "put_db k d1 st1"])
         (simp add: o1_def split_on_normalize)
  next
    case True
    have nl: "local_lookup ratio query (get_db k st1) = None"
      using True row(4)
      by (simp add: local_lookup_def find_in_db_exact_keywords_only_def g1 rows1
          find_best_single_empty_kw)
    obtain row' obj where upd:
      "save_or_update_db now2 d1 nm query address lat lng [] [] = (obj, d1\<lparr>db_rows := [row']\<rparr>)"
      "p_id obj = p_id row" "p_id row' = p_id row"
      "p_keywords row' = merge_keywords (p_keywords row) query"
      "p_keywords obj = merge_keywords (p_keywords row) query"
      using save_update_single [OF rows1 row(3)] by blast
    have mk: "merge_keywords (p_keywords row) query = []"
      using True by (simp add: row(4) merge_keywords_empty)
    have second: "search_address provider ratio now2 query k st1 =
                    (Some obj, put_db k (d1\<lparr>db_rows := [row']\<rparr>) st1)"
      using assms(1,3) nl upd(1) by (simp add: search_address_def g1 nm_def)
    show ?thesis
      using first second upd(2-5) mk True
      by (intro exI [of _ o1] exI [of _ st1] exI [of _ obj]
            exI [of _ "put_db k (d1\<lparr>db_rows := [row']\<rparr>) st1"] exI [of _ row'])
         (simp add: o1_def)
  qed
qed

theorem C5_same_query_twice_witness:
  "\<exists>o1 st1 o2 st2 row.
     search_address hoxton_provider (\<lambda>a b. 0) (ustr ''2025-01-01 10:00:00'')
       (ustr ''Hoxton Amsterdam'') Hotels empty_store = (Some o1, st1) \<and>
     search_address hoxton_provider (\<lambda>a b. 0) (ustr ''2025-01-01 10:05:00'')
       (ustr ''Hoxton Amsterdam'') Hotels st1 = (Some o2, st2) \<and>
     p_id o1 = p_id o2 \<and> db_rows (get_db Hotels st2) = [row] \<and> p_id row = p_id o2 \<and>
     p_keywords row = ustr ''hoxton amsterdam'' \<and>
     split_on 59 (p_keywords row) = [ustr ''hoxton amsterdam'']"
proof -
  have 1: "ustr ''Hoxton Amsterdam'' \<noteq> []" by (simp add: ustr_def)
  have 2: "db_rows (get_db Hotels empty_store) = []"
    by (simp add: get_db_def empty_store_def empty_db_def)
  have 3: "hoxton_provider (ustr ''Hoxton Amsterdam'') =
             Some (ustr ''The Hoxton, Amsterdam'', ustr ''Herengracht 255, 1016 BJ Amsterdam'',
                   Some 52.372, Some 4.895)"
    by (simp add: hoxton_provider_def)
  have 4: "normalize_keyword (ustr ''Hoxton Amsterdam'') = ustr ''hoxton amsterdam''"
    by (simp add: str_eval)
  from C5_same_query_twice [where provider = hoxton_provider and ratio = "\<lambda>a b. 0"
      and ?now1.0 = "ustr ''2025-01-01 10:00:00''" and ?now2.0 = "ustr ''2025-01-01 10:05:00''",
      OF 1 2 3]
  show ?thesis unfolding 4 by blast
qed

section \<open>The link table\<close>

lemma put_db_links [simp]:
  "links (put_db k d st) = links st" "link_seq (put_db k d st) = link_seq st"
  by (cases k; simp add: put_db_def)+

lemma search_address_links: "same_links st (snd (search_address provider ratio now query k st))"
  by (simp add: search_address_def same_links_def split: option.splits prod.splits)

lemma search_address_near_links:
  "same_links st (snd (search_address_near topk repr ratio now query near_lat near_lng k st))"
  by (simp add: search_address_near_def same_links_def Let_def split: prod.splits)

lemma resolve_side_links:
  "same_links st (snd (resolve_side provider ratio now query k cim st))"
  using search_address_links [of st provider ratio now query k]
  by (simp add: resolve_side_def same_links_def split: option.splits)

lemma resolve_side_None:
  "fst (resolve_side provider ratio now query k cim st) = None \<longleftrightarrow>
     local_lookup ratio query (get_db k st) = None \<and>
     (\<not> cim \<or> query = [] \<or> provider query = None)"
  by (auto simp: resolve_side_def search_address_def Let_def
      split: option.splits prod.splits)

text \<open>
  Claim C8.  When the hotel side or the pickup side of \<open>link_hotel_to_pickup\<close> does not
  resolve, the function returns \<open>None\<close> and the link table and its counter are as before
  the call.  A side does not resolve exactly when the local stages miss and either
  \<open>create_if_missing\<close> is false, or the query is empty, or the provider fails.
\<close>

theorem C8_no_partial_link:
  fixes provider ratio now hotel_query pickup_query priority nts create_if_missing st
  defines "res \<equiv> link_hotel_to_pickup provider ratio now hotel_query pickup_query priority nts
                    create_if_missing st"
    and "hside \<equiv> resolve_side provider ratio now hotel_query Hotels create_if_missing st"
  defines "pside \<equiv> resolve_side provider ratio now pickup_query Pickup create_if_missing (snd hside)"
  shows "(fst hside = None \<or> fst pside = None \<longrightarrow>
            fst res = None \<and> links (snd res) = links st \<and> link_seq (snd res) = link_seq st) \<and>
         (fst hside = None \<longleftrightarrow>
            local_lookup ratio hotel_query (hotels st) = None \<and>
            (\<not> create_if_missing \<or> hotel_query = [] \<or> provider hotel_query = None)) \<and>
         (fst pside = None \<longleftrightarrow>
            local_lookup ratio pickup_query (pickup (snd hside)) = None \<and>
            (\<not> create_if_missing \<or> pickup_query = [] \<or> provider pickup_query = None))"
proof (intro conjI impI)
  assume f: "fst hside = None \<or> fst pside = None"
  obtain h st1 where h: "hside = (h, st1)" by (cases hside)
  obtain p st2 where p: "pside = (p, st2)" by (cases pside)
  have r: "res = (None, st2)"
    using f h p unfolding res_def link_hotel_to_pickup_def hside_def pside_def
    by (auto simp: Let_def split: option.splits)
  have "same_links st st1"
    using resolve_side_links [of st provider ratio now hotel_query Hotels create_if_missing] h
    by (simp add: hside_def)
  moreover have "same_links st1 st2"
    using resolve_side_links [of st1 provider ratio now pickup_query Pickup create_if_missing] h p
    by (simp add: pside_def)
  ultimately show "fst res = None" "links (snd res) = links st" "link_seq (snd res) = link_seq st"
    using r by (simp_all add: same_links_def)
next
  show "fst hside = None \<longleftrightarrow>
          local_lookup ratio hotel_query (hotels st) = None \<and>
          (\<not> create_if_missing \<or> hotel_query = [] \<or> provider hotel_query = None)"
    unfolding hside_def resolve_side_None by (simp add: get_db_def)
  show "fst pside = None \<longleftrightarrow>
          local_lookup ratio pickup_query (pickup (snd hside)) = None \<and>
          (\<not> create_if_missing \<or> pickup_query = [] \<or> provider pickup_query = None)"
    unfolding pside_def resolve_side_None by (simp add: get_db_def)
qed

lemma pair_rows_append [simp]: "pair_rows h p (xs @ ys) = pair_rows h p xs @ pair_rows h p ys"
  by (simp add: pair_rows_def)

lemma pair_rows_map:
  "(\<And>l. l_hotel_id (f l) = l_hotel_id l \<and> l_pickup_id (f l) = l_pickup_id l) \<Longrightarrow>
   pair_rows h p (map f ls) = map f (pair_rows h p ls)"
  by (induction ls) (auto simp: pair_rows_def)

lemma pair_rows_filter: "length (pair_rows h p (filter Q ls)) \<le> length (pair_rows h p ls)"
  unfolding pair_rows_def by (induction ls) auto

lemma find_pair_None:
  "find (\<lambda>l. l_hotel_id l = h \<and> l_pickup_id l = p) ls = None \<Longrightarrow> pair_rows h p ls = []"
  by (auto simp: find_None_iff pair_rows_def filter_empty_conv)

lemma find_pair_Some:
  assumes "find (\<lambda>l. l_hotel_id l = h \<and> l_pickup_id l = p) ls = Some row"
    and "length (pair_rows h p ls) \<le> 1"
  shows "pair_rows h p ls = [row]"
proof -
  have "row \<in> set (pair_rows h p ls)"
    using assms(1) by (auto simp: find_Some_iff pair_rows_def)
  then show ?thesis using assms(2)
    by (cases "pair_rows h p ls") (auto simp: le_Suc_eq)
qed

lemma upsert_link_pair:
  assumes "pair_unique (links st)" "upsert_link now h p priority nts st = (link_id, st')"
  shows "\<exists>l. pair_rows (p_id h) (p_id p) (links st') = [l] \<and> l_id l = link_id \<and>
             l_priority l = priority \<and> l_notes l = nts \<and>
             l_hotel_name l = p_name h \<and> l_pickup_name l = p_name p"
proof (cases "find (\<lambda>l. l_hotel_id l = p_id h \<and> l_pickup_id l = p_id p) (links st)")
  case None
  then have "pair_rows (p_id h) (p_id p) (links st) = []" by (rule find_pair_None)
  then show ?thesis using assms(2) None
    by (auto simp: upsert_link_def Let_def pair_rows_def)
next
  case (Some row)
  define f :: "link \<Rightarrow> link" where "f = (\<lambda>l. if l_id l = l_id row
                            then l\<lparr>l_hotel_name := p_name h, l_pickup_name := p_name p,
                                   l_priority := priority, l_notes := nts,
                                   l_updated_at := now\<rparr>
                            else l)"
  have st': "links st' = map f (links st)" "link_id = l_id row"
    using assms(2) Some by (auto simp: upsert_link_def Let_def f_def)
  have "pair_rows (p_id h) (p_id p) (links st) = [row]"
    using Some assms(1) by (intro find_pair_Some) (auto simp: pair_unique_def)
  then have "pair_rows (p_id h) (p_id p) (links st') = [f row]"
    unfolding st'(1) by (subst pair_rows_map) (auto simp: f_def)
  then show ?thesis by (simp add: f_def st'(2))
qed

lemma upsert_link_unique:
  assumes "pair_unique (links st)"
  shows "pair_unique (links (snd (upsert_link now h p priority nts st)))"
proof (cases "find (\<lambda>l. l_hotel_id l = p_id h \<and> l_pickup_id l = p_id p) (links st)")
  case None
  then have e: "pair_rows (p_id h) (p_id p) (links st) = []" by (rule find_pair_None)
  show ?thesis unfolding pair_unique_def
  proof (intro allI)
    fix a b
    show "length (pair_rows a b (links (snd (upsert_link now h p priority nts st)))) \<le> 1"
    proof (cases "a = p_id h \<and> b = p_id p")
      case True
      then show ?thesis using None e by (simp add: upsert_link_def Let_def) (simp add: pair_rows_def)
    next
      case False
      then have "pair_rows a b (links (snd (upsert_link now h p priority nts st))) =
                 pair_rows a b (links st)"
        using None by (auto simp: upsert_link_def Let_def pair_rows_def)
      then show ?thesis using assms by (simp add: pair_unique_def)
    qed
  qed
next
  case (Some row)
  define f :: "link \<Rightarrow> link" where "f = (\<lambda>l. if l_id l = l_id row
                            then l\<lparr>l_hotel_name := p_name h, l_pickup_name := p_name p,
                                   l_priority := priority, l_notes := nts,
                                   l_updated_at := now\<rparr>
                            else l)"
  have st': "links (snd (upsert_link now h p priority nts st)) = map f (links st)"
    using Some by (simp add: upsert_link_def Let_def f_def)
  have "\<And>a b. pair_rows a b (map f (links st)) = map f (pair_rows a b (links st))"
    by (rule pair_rows_map) (simp add: f_def)
  then show ?thesis using assms by (simp add: pair_unique_def st')
qed

lemma upsert_link_in_place:
  assumes "find (\<lambda>l. l_hotel_id l = p_id h \<and> l_pickup_id l = p_id p) (links st) = Some row"
  shows "length (links (snd (upsert_link now h p priority nts st))) = length (links st)"
    and "map l_id (links (snd (upsert_link now h p priority nts st))) = map l_id (links st)"
    and "fst (upsert_link now h p priority nts st) = l_id row"
  using assms by (simp_all add: upsert_link_def Let_def comp_def if_distrib cong: if_cong)

lemma link_hotel_to_pickup_cases:
  obtains (none) st2 where
      "link_hotel_to_pickup provider ratio now hq pq priority nts cim st = (None, st2)"
      "same_links st st2"
  | (some) h p st2 where
      "link_hotel_to_pickup provider ratio now hq pq priority nts cim st =
         (Some \<lparr>r_link_id = fst (upsert_link now h p priority nts st2), r_hotel = h, r_pickup = p,
                 r_priority = priority, r_notes = nts\<rparr>,
          snd (upsert_link now h p priority nts st2))"
      "same_links st st2"
proof -
  obtain h st1 where h: "resolve_side provider ratio now hq Hotels cim st = (h, st1)"
    by (cases "resolve_side provider ratio now hq Hotels cim st")
  obtain p st2 where p: "resolve_side provider ratio now pq Pickup cim st1 = (p, st2)"
    by (cases "resolve_side provider ratio now pq Pickup cim st1")
  have "same_links st st1"
    using resolve_side_links [of st provider ratio now hq Hotels cim] h by simp
  moreover have "same_links st1 st2"
    using resolve_side_links [of st1 provider ratio now pq Pickup cim] p by simp
  ultimately have sl: "same_links st st2" by (simp add: same_links_def)
  show thesis
  proof (cases "h = None \<or> p = None")
    case True
    then have "link_hotel_to_pickup provider ratio now hq pq priority nts cim st = (None, st2)"
      using h p by (auto simp: link_hotel_to_pickup_def split: option.splits)
    then show ?thesis using sl by (rule none)
  next
    case False
    then obtain h' p' where "h = Some h'" "p = Some p'" by auto
    then have "link_hotel_to_pickup provider ratio now hq pq priority nts cim st =
         (Some \<lparr>r_link_id = fst (upsert_link now h' p' priority nts st2), r_hotel = h',
                 r_pickup = p', r_priority = priority, r_notes = nts\<rparr>,
          snd (upsert_link now h' p' priority nts st2))"
      using h p by (simp add: link_hotel_to_pickup_def split: prod.splits)
    then show ?thesis using sl by (rule some)
  qed
qed

lemma link_step_unique:
  assumes "pair_unique (links st)"
  shows "pair_unique (links (snd (link_hotel_to_pickup provider ratio now hq pq priority nts cim st)))"
proof (cases rule: link_hotel_to_pickup_cases [of provider ratio now hq pq priority nts cim st])
  case (none st2)
  then show ?thesis using assms by (simp add: same_links_def)
next
  case (some h p st2)
  then have "pair_unique (links st2)" using assms by (simp add: same_links_def)
  then show ?thesis using some(1) by (simp add: upsert_link_unique)
qed

lemma unlink_step_unique:
  assumes "pair_unique (links st)"
  shows "pair_unique (links (snd (unlink_hotel_pickup ratio hotel pickup' st)))"
proof -
  have "\<And>Q. pair_unique (filter Q (links st))"
    unfolding pair_unique_def
    using assms pair_rows_filter [of _ _ _ "links st"]
    by (meson le_trans pair_unique_def)
  then show ?thesis using assms
    by (simp add: unlink_hotel_pickup_def split: option.splits)
qed

lemma linked_unique: "linked st \<Longrightarrow> pair_unique (links st)"
proof (induction rule: linked.induct)
  case (no_links st)
  then show ?case by (simp add: pair_unique_def pair_rows_def)
next
  case (link_step st provider ratio now hotel_query pickup_query priority nts create_if_missing)
  then show ?case by (intro link_step_unique)
next
  case (unlink_step st ratio hotel pickup')
  then show ?case by (intro unlink_step_unique)
next
  case (search_step st provider ratio now query k)
  then show ?case
    using search_address_links [of st provider ratio now query k] by (simp add: same_links_def)
next
  case (near_step st topk repr ratio now query near_lat near_lng k)
  then show ?case
    using search_address_near_links [of st topk repr ratio now query near_lat near_lng k]
    by (simp add: same_links_def)
qed

text \<open>
  Claim C7.  In every store reachable from an empty link table, every pair
  \<open>(hotel_id, pickup_id)\<close> has at most one link row.  After a successful
  \<open>link_hotel_to_pickup\<close> in such a store, the resolved pair has exactly one row, and this
  row carries the priority and the notes of the call; if the pair had a row before, the
  call inserted none (the ids of the rows are as before).  So linking a pair with
  priority 1 and again with priority 2 leaves one row with priority 2: see the witness.
\<close>

theorem C7_one_link_per_pair:
  assumes "linked st"
  shows "(\<forall>h p. length (pair_rows h p (links st)) \<le> 1) \<and>
         (\<forall>provider ratio now hq pq priority nts cim res st'.
            link_hotel_to_pickup provider ratio now hq pq priority nts cim st = (Some res, st') \<longrightarrow>
            (\<exists>l. pair_rows (p_id (r_hotel res)) (p_id (r_pickup res)) (links st') = [l] \<and>
                 l_id l = r_link_id res \<and> l_priority l = priority \<and> l_notes l = nts) \<and>
            (pair_rows (p_id (r_hotel res)) (p_id (r_pickup res)) (links st) \<noteq> [] \<longrightarrow>
               map l_id (links st') = map l_id (links st)))"
proof (intro conjI allI impI)
  have u: "pair_unique (links st)" using assms by (rule linked_unique)
  then show "\<And>h p. length (pair_rows h p (links st)) \<le> 1" by (simp add: pair_unique_def)
  fix provider ratio now hq pq priority nts cim res st'
  assume a: "link_hotel_to_pickup provider ratio now hq pq priority nts cim st = (Some res, st')"
  obtain h p st2 where hp:
    "res = \<lparr>r_link_id = fst (upsert_link now h p priority nts st2), r_hotel = h, r_pickup = p,
            r_priority = priority, r_notes = nts\<rparr>"
    "st' = snd (upsert_link now h p priority nts st2)" "same_links st st2"
    using a by (cases rule: link_hotel_to_pickup_cases [of provider ratio now hq pq priority nts cim st])
      auto
  have u2: "pair_unique (links st2)" using u hp(3) by (simp add: same_links_def)
  have up: "upsert_link now h p priority nts st2 = (r_link_id res, st')"
    by (simp add: hp(1,2))
  show "\<exists>l. pair_rows (p_id (r_hotel res)) (p_id (r_pickup res)) (links st') = [l] \<and>
             l_id l = r_link_id res \<and> l_priority l = priority \<and> l_notes l = nts"
    using upsert_link_pair [OF u2 up] by (auto simp: hp(1))
  assume ne: "pair_rows (p_id (r_hotel res)) (p_id (r_pickup res)) (links st) \<noteq> []"
  then have "find (\<lambda>l. l_hotel_id l = p_id h \<and> l_pickup_id l = p_id p) (links st2) \<noteq> None"
    using hp(3) find_pair_None [of "p_id h" "p_id p" "links st2"]
    by (auto simp: hp(1) same_links_def)
  then obtain row where
    "find (\<lambda>l. l_hotel_id l = p_id h \<and> l_pickup_id l = p_id p) (links st2) = Some row" by auto
  then show "map l_id (links st') = map l_id (links st)"
    using upsert_link_in_place(2) [of h p st2 row now priority nts] hp(2,3)
    by (simp add: same_links_def)
qed

lemma resolve_park:
  "hotels st = hotels park_store \<Longrightarrow>
   resolve_side provider ratio now (ustr ''Park Hotel'') Hotels cim st = (Some park_exact, st)"
  by (simp add: resolve_side_def local_lookup_def find_in_db_exact_keywords_only_def get_db_def
      park_store_def kw_list_def park_exact_def park_similar_def str_eval)

lemma resolve_dam:
  "pickup st = pickup link_store \<Longrightarrow>
   resolve_side provider ratio now (ustr ''Dam Square'') Pickup cim st = (Some dam_pickup, st)"
  by (simp add: resolve_side_def local_lookup_def find_in_db_exact_keywords_only_def get_db_def
      link_store_def kw_list_def dam_pickup_def str_eval)

lemma link_park_dam:
  "hotels st = hotels park_store \<Longrightarrow> pickup st = pickup link_store \<Longrightarrow>
   link_hotel_to_pickup provider ratio now (ustr ''Park Hotel'') (ustr ''Dam Square'') priority nts
     cim st =
     (Some \<lparr>r_link_id = fst (upsert_link now park_exact dam_pickup priority nts st),
            r_hotel = park_exact, r_pickup = dam_pickup, r_priority = priority, r_notes = nts\<rparr>,
      snd (upsert_link now park_exact dam_pickup priority nts st))"
  by (simp add: link_hotel_to_pickup_def resolve_park resolve_dam split: prod.splits)

lemma upsert_link_tables [simp]:
  "hotels (snd (upsert_link now h p priority nts st)) = hotels st"
  "pickup (snd (upsert_link now h p priority nts st)) = pickup st"
  by (simp_all add: upsert_link_def Let_def split: option.splits)

theorem C7_one_link_per_pair_witness:
  "linked (snd (link_hotel_to_pickup no_provider (\<lambda>a b. 0) (ustr ''2025-01-02 09:00:00'')
                  (ustr ''Park Hotel'') (ustr ''Dam Square'') 1 [] True link_store)) \<and>
   (\<exists>l. pair_rows 2 1
           (links (snd (link_hotel_to_pickup no_provider (\<lambda>a b. 0) (ustr ''2025-01-02 09:05:00'')
                          (ustr ''Park Hotel'') (ustr ''Dam Square'') 2 [] True
                     (snd (link_hotel_to_pickup no_provider (\<lambda>a b. 0) (ustr ''2025-01-02 09:00:00'')
                             (ustr ''Park Hotel'') (ustr ''Dam Square'') 1 [] True link_store)))))
         = [l] \<and> l_priority l = 2)"
proof -
  define st1 where "st1 = snd (link_hotel_to_pickup no_provider (\<lambda>a b. 0)
      (ustr ''2025-01-02 09:00:00'') (ustr ''Park Hotel'') (ustr ''Dam Square'') 1 [] True link_store)"
  have l0: "linked link_store"
    by (rule linked.no_links) (simp add: link_store_def park_store_def)
  have l1: "linked st1" unfolding st1_def using l0 by (rule linked.link_step)
  have t: "hotels st1 = hotels park_store" "pickup st1 = pickup link_store"
    by (simp_all add: st1_def link_park_dam link_store_def)
  define r2 where "r2 = link_hotel_to_pickup no_provider (\<lambda>a b. 0) (ustr ''2025-01-02 09:05:00'')
      (ustr ''Park Hotel'') (ustr ''Dam Square'') 2 [] True st1"
  have e: "r2 = (Some \<lparr>r_link_id = fst (upsert_link (ustr ''2025-01-02 09:05:00'') park_exact
                                           dam_pickup 2 [] st1),
                       r_hotel = park_exact, r_pickup = dam_pickup, r_priority = 2, r_notes = []\<rparr>,
                 snd r2)"
    unfolding r2_def by (simp add: link_park_dam [OF t])
  from C7_one_link_per_pair [OF l1] e [unfolded r2_def]
  have "\<exists>l. pair_rows (p_id park_exact) (p_id dam_pickup) (links (snd r2)) = [l] \<and> l_priority l = 2"
    unfolding r2_def by fastforce
  then show ?thesis using l1
    unfolding r2_def st1_def by (simp add: park_exact_def dam_pickup_def)
qed

theorem C8_no_partial_link_witness:
  "fst (link_hotel_to_pickup no_provider (\<lambda>a b. 0) (ustr ''2025-01-02 09:00:00'')
          (ustr ''Park Hotel'') (ustr ''Dam Square'') 1 [] False park_store) = None \<and>
   links (snd (link_hotel_to_pickup no_provider (\<lambda>a b. 0) (ustr ''2025-01-02 09:00:00'')
                 (ustr ''Park Hotel'') (ustr ''Dam Square'') 1 [] False park_store))
     = links park_store"
proof -
  have h: "resolve_side no_provider (\<lambda>a b. 0) (ustr ''2025-01-02 09:00:00'') (ustr ''Park Hotel'')
             Hotels False park_store = (Some park_exact, park_store)"
    by (rule resolve_park) simp
  have "local_lookup (\<lambda>a b. 0) (ustr ''Dam Square'') (pickup park_store) = None"
    by (rule local_lookup_no_rows) (simp add: park_store_def empty_db_def)
  then show ?thesis
    using C8_no_partial_link [where provider = no_provider and ratio = "\<lambda>a b. 0"
        and now = "ustr ''2025-01-02 09:00:00''" and hotel_query = "ustr ''Park Hotel''"
        and create_if_missing = False and st = park_store
        and pickup_query = "ustr ''Dam Square''" and priority = 1 and nts = "[]"]
    by (simp add: h)
qed

section \<open>The scored-precise stage\<close>














lemma top_ranked_single [simp]: "top_ranked S [r] = Some r"
  by (simp add: top_ranked_def)

lemma second_best_single [simp]: "second_best_score S [r] r = 0"
  by (simp add: second_best_score_def)














section \<open>The nearest admitted row\<close>











section \<open>Saving: coordinates, addresses, and candidates without coordinates\<close>

lemma save_insert_coords:
  assumes "find (\<lambda>r. p_name r = nm) (db_rows d) = None"
  shows "p_lat (fst (save_or_update_db now d nm kw addr lat lng pid nts)) = or_float lat (Some 0)"
    and "p_lng (fst (save_or_update_db now d nm kw addr lat lng pid nts)) = or_float lng (Some 0)"
    and "\<exists>row. db_rows (snd (save_or_update_db now d nm kw addr lat lng pid nts)) = db_rows d @ [row] \<and>
               p_name row = nm \<and> p_lat row = or_float lat (Some 0) \<and>
               p_lng row = or_float lng (Some 0) \<and>
               p_id row = p_id (fst (save_or_update_db now d nm kw addr lat lng pid nts))"
  using assms by (simp_all add: save_or_update_db_def Let_def split: prod.splits)

text \<open>
  Claim C3, as amended.  When \<open>save_or_update_db\<close> inserts a fresh record (no row has
  the name) and both coordinates are absent, the stored latitude and longitude are the
  number 0.0, not \<open>NULL\<close>, and the returned record reports 0.0 for both: the code
  writes \<open>lat or 0.0\<close> and \<open>lng or 0.0\<close>.
\<close>

theorem C3_insert_without_coordinates:
  assumes "find (\<lambda>r. p_name r = official_name) (db_rows d) = None"
  shows "p_lat (fst (save_or_update_db now d official_name new_keyword address None None
                       place_id nts)) = Some 0 \<and>
         p_lng (fst (save_or_update_db now d official_name new_keyword address None None
                       place_id nts)) = Some 0 \<and>
         (\<exists>row. db_rows (snd (save_or_update_db now d official_name new_keyword address None None
                                  place_id nts)) = db_rows d @ [row] \<and>
                p_name row = official_name \<and> p_lat row = Some 0 \<and> p_lng row = Some 0)"
  using save_insert_coords [OF assms, of now new_keyword address None None place_id nts]
  by (auto simp: or_float_def)

text \<open>The claim as stated (the stored and the returned coordinates are absent) fails on
  the first insertion into the empty table.\<close>

theorem C3_stored_null_counterexample:
  "p_lat (fst (save_or_update_db (ustr ''2025-01-01 10:00:00'') empty_db
                 (ustr ''Park Hotel Amsterdam'') (ustr ''Park Hotel'') [] None None [] [])) \<noteq> None \<and>
   map p_lat (db_rows (snd (save_or_update_db (ustr ''2025-01-01 10:00:00'') empty_db
                 (ustr ''Park Hotel Amsterdam'') (ustr ''Park Hotel'') [] None None [] [])))
     = [Some 0] \<and>
   map p_lng (db_rows (snd (save_or_update_db (ustr ''2025-01-01 10:00:00'') empty_db
                 (ustr ''Park Hotel Amsterdam'') (ustr ''Park Hotel'') [] None None [] [])))
     = [Some 0]"
  by (simp add: save_or_update_db_def empty_db_def Let_def or_float_def split: prod.splits)

theorem C3_insert_without_coordinates_witness:
  "find (\<lambda>r. p_name r = ustr ''Park Hotel Amsterdam'') (db_rows empty_db) = None \<and>
   p_lat (fst (save_or_update_db (ustr ''2025-01-01 10:00:00'') empty_db
                 (ustr ''Park Hotel Amsterdam'') (ustr ''Park Hotel'') [] None None [] [])) = Some 0 \<and>
   p_lng (fst (save_or_update_db (ustr ''2025-01-01 10:00:00'') empty_db
                 (ustr ''Park Hotel Amsterdam'') (ustr ''Park Hotel'') [] None None [] [])) = Some 0"
proof -
  have h: "find (\<lambda>r. p_name r = ustr ''Park Hotel Amsterdam'') (db_rows empty_db) = None"
    by (simp add: empty_db_def)
  from C3_insert_without_coordinates [OF h] h show ?thesis by blast
qed

lemma clean_empty [simp]: "clean_country_suffix [] = []"
  by (simp add: clean_country_suffix_def)

lemma split_address_empty [simp]: "split_address [] = ([], [])"
  by (simp add: split_address_def)

text \<open>
  Claim C2 at a failing input.  The hotel table holds the row \<open>Park Hotel Amsterdam\<close>
  with an address, a street and a city.  Saving the same name again with an empty address
  leaves the row with an empty address, street and city, and returns an empty address:
  the \<open>UPDATE\<close> writes the new values unconditionally (the old address is selected
  but not used), while the claim says the stored values are kept.
\<close>

theorem C2_empty_address_overwrites:
  "p_address park_exact = ustr ''Stadhouderskade 25, 1071 ZD Amsterdam'' \<and>
   p_street park_exact = ustr ''Stadhouderskade 25'' \<and> p_city park_exact = ustr ''Amsterdam'' \<and>
   map (\<lambda>r. (p_id r, p_address r, p_street r, p_city r))
     (db_rows (snd (save_or_update_db (ustr ''2025-01-02 09:00:00'') (hotels park_store)
                      (ustr ''Park Hotel Amsterdam'') (ustr ''park hotel'') [] None None [] [])))
     = [(1, [], [], []), (2, [], [], [])] \<and>
   p_address (fst (save_or_update_db (ustr ''2025-01-02 09:00:00'') (hotels park_store)
                      (ustr ''Park Hotel Amsterdam'') (ustr ''park hotel'') [] None None [] [])) = []"
proof -
  have f: "p_name park_exact = ustr ''Park Hotel Amsterdam''"
    "p_name park_similar \<noteq> ustr ''Park Hotel Amsterdam''"
    by (simp_all add: park_exact_def park_similar_def ustr_def)
  have ids: "p_id park_similar = 1" "p_id park_exact = 2"
    "p_address park_similar = []" "p_street park_similar = []" "p_city park_similar = []"
    by (simp_all add: park_similar_def park_exact_def)
  have rows: "db_rows (hotels park_store) = [park_similar, park_exact]"
    by (simp add: park_store_def)
  have "p_address park_exact = ustr ''Stadhouderskade 25, 1071 ZD Amsterdam''"
    "p_street park_exact = ustr ''Stadhouderskade 25''" "p_city park_exact = ustr ''Amsterdam''"
    by (simp_all add: park_exact_def)
  moreover have "map (\<lambda>r. (p_id r, p_address r, p_street r, p_city r))
     (db_rows (snd (save_or_update_db (ustr ''2025-01-02 09:00:00'') (hotels park_store)
                      (ustr ''Park Hotel Amsterdam'') (ustr ''park hotel'') [] None None [] [])))
     = [(1, [], [], []), (2, [], [], [])]"
    by (simp add: save_or_update_db_def f Let_def rows ids)
  moreover have "p_address (fst (save_or_update_db (ustr ''2025-01-02 09:00:00'')
      (hotels park_store) (ustr ''Park Hotel Amsterdam'') (ustr ''park hotel'') [] None None [] []))
        = []"
    by (simp add: save_or_update_db_def f Let_def rows)
  ultimately show ?thesis by simp
qed

text \<open>
  Claim C4 at a failing input.  The table is empty and the provider returns one candidate
  with a name and an address but without coordinates.  \<open>search_address_near\<close> does not
  save that candidate: the list \<open>cands\<close> has been replaced by its filtered, empty
  version before \<open>cands[0] if cands else ...\<close> is evaluated, so the record saved and
  returned has the query as its name and an empty address.
\<close>

theorem C4_first_candidate_not_chosen:
  "c_name coordless_cand = ustr ''Dam Square Meeting Point'' \<and>
   c_address coordless_cand = ustr ''Dam 1, 1012 JS Amsterdam'' \<and>
   map_option (\<lambda>r. (p_name r, p_address r, p_lat r, p_lng r))
     (fst (search_address_near (\<lambda>q. [coordless_cand]) (\<lambda>x. []) ratio_092
             (ustr ''2025-01-02 09:00:00'') (ustr ''Dam Square'') 52.3728 4.8936 Pickup
             empty_store))
     = Some (ustr ''Dam Square'', [], Some 0, Some 0) \<and>
   map (\<lambda>r. (p_name r, p_address r))
     (db_rows (pickup (snd (search_address_near (\<lambda>q. [coordless_cand]) (\<lambda>x. []) ratio_092
             (ustr ''2025-01-02 09:00:00'') (ustr ''Dam Square'') 52.3728 4.8936 Pickup
             empty_store))))
     = [(ustr ''Dam Square'', [])]"
proof -
  have q: "strip (ustr ''Dam Square'') \<noteq> []" "ustr ''Dam Square'' \<noteq> []"
    by (simp_all add: ustr_def strip_def is_space_def)
  have d: "get_db Pickup empty_store = empty_db" by (simp add: get_db_def empty_store_def)
  have c: "c_lat coordless_cand = None" "c_lng coordless_cand = None"
    by (simp_all add: coordless_cand_def)
  have r: "search_address_near (\<lambda>q. [coordless_cand]) (\<lambda>x. []) ratio_092
             (ustr ''2025-01-02 09:00:00'') (ustr ''Dam Square'') 52.3728 4.8936 Pickup
             empty_store =
           (Some (fst (save_or_update_db (ustr ''2025-01-02 09:00:00'') empty_db
                         (ustr ''Dam Square'') (ustr ''Dam Square'') [] None None []
                         (ustr ''nearest to ('' @ ustr '','' @ ustr '')''))),
            put_db Pickup (snd (save_or_update_db (ustr ''2025-01-02 09:00:00'') empty_db
                         (ustr ''Dam Square'') (ustr ''Dam Square'') [] None None []
                         (ustr ''nearest to ('' @ ustr '','' @ ustr '')''))) empty_store)"
    using q by (simp add: search_address_near_def Let_def d local_pool_def empty_db_def
        haversine_m_def c or_str_def split: prod.splits)
  have s: "save_or_update_db (ustr ''2025-01-02 09:00:00'') empty_db
             (ustr ''Dam Square'') (ustr ''Dam Square'') [] None None []
             (ustr ''nearest to ('' @ ustr '','' @ ustr '')'') =
           (\<lparr>p_id = 1, p_name = ustr ''Dam Square'',
              p_keywords = normalize_keyword (ustr ''Dam Square''),
              p_street = [], p_city = [], p_address = [], p_lat = Some 0, p_lng = Some 0,
              p_place_id = [], p_created_at = None, p_updated_at = None,
              p_notes = ustr ''nearest to ('' @ ustr '','' @ ustr '')''\<rparr>,
            \<lparr>db_rows = [\<lparr>p_id = 1, p_name = ustr ''Dam Square'',
              p_keywords = normalize_keyword (ustr ''Dam Square''),
              p_street = [], p_city = [], p_address = [], p_lat = Some 0, p_lng = Some 0,
              p_place_id = [], p_created_at = Some (ustr ''2025-01-02 09:00:00''),
              p_updated_at = Some (ustr ''2025-01-02 09:00:00''),
              p_notes = ustr ''nearest to ('' @ ustr '','' @ ustr '')''\<rparr>], db_seq = 1\<rparr>)"
    by (simp add: save_or_update_db_def empty_db_def next_id_def or_float_def)
  show ?thesis
    unfolding r s by (simp add: coordless_cand_def put_db_def)
qed

end
